theory Spec2Isabelle
  imports Main "HOL-Library.Monad_Syntax" "HOL-Library.Sublist"
begin

unbundle bit_operations_syntax

section \<open>The yash shell: constants and data\<close>

text \<open>
  The development follows the final shape of the shell (the translation unit that defines
  \<^verbatim>\<open>FG_JOB_NUM\<close> and \<^verbatim>\<open>update_job_command_str\<close>). C strings are lists of their
  bytes up to the terminating NUL; a \<^verbatim>\<open>char *\<close> that may be \<^verbatim>\<open>NULL\<close> is a
  \<open>string option\<close>.
\<close>

definition MAX_ARGS :: nat where "MAX_ARGS = 128"

definition INPUT_REDIRECT :: string where "INPUT_REDIRECT = ''<''"
definition OUTPUT_REDIRECT :: string where "OUTPUT_REDIRECT = ''>''"
definition ERROR_REDIRECT :: string where "ERROR_REDIRECT = ''2>''"
definition PIPE :: string where "PIPE = ''|''"
definition SEND_TO_BACKGROUND :: string where "SEND_TO_BACKGROUND = ''&''"

definition FG_JOB_NUM :: int where "FG_JOB_NUM = - 1"

definition SUCCESS :: int where "SUCCESS = 1"
definition COMMAND_PROCESSING_ERROR :: int where "COMMAND_PROCESSING_ERROR = - 1"
definition FILE_REDIRECTION_ERROR :: int where "FILE_REDIRECTION_ERROR = - 1"

definition EXIT_SUCCESS :: int where "EXIT_SUCCESS = 0"

definition STDIN_FILENO :: int where "STDIN_FILENO = 0"
definition STDOUT_FILENO :: int where "STDOUT_FILENO = 1"
definition STDERR_FILENO :: int where "STDERR_FILENO = 2"

datatype job_status = RUNNING | STOPPED | DONE

text \<open>
  \<^verbatim>\<open>process_t\<close>: the array \<^verbatim>\<open>argv\<close> has \<open>MAX_ARGS + 1\<close> slots, each a pointer that is
  \<^verbatim>\<open>NULL\<close> after the \<^verbatim>\<open>memset\<close>; slot \<open>i\<close> is \<open>argv p i\<close>.
\<close>

record process_t =
  argv :: "nat \<Rightarrow> string option"
  redirect_input_filename :: "string option"
  redirect_output_filename :: "string option"
  redirect_error_filename :: "string option"

definition zero_process :: process_t where
  "zero_process = \<lparr>argv = (\<lambda>_. None), redirect_input_filename = None,
     redirect_output_filename = None, redirect_error_filename = None\<rparr>"

section \<open>The redirection applier\<close>

text \<open>
  The applier talks to the operating system only. Its model records every call it makes, in
  order, and takes the answers of \<^verbatim>\<open>open\<close> from outside: \<open>sys n\<close> is what the \<open>n\<close>-th
  call of \<^verbatim>\<open>open\<close> returns (a descriptor, negative on failure) together with the text
  \<^verbatim>\<open>strerror(errno)\<close> has after that call. Flags and permission bits are kept by name, in
  the order the source writes them.
\<close>

datatype oflag = O_RDONLY | O_WRONLY | O_CREAT | O_TRUNC

datatype perm = S_IRUSR | S_IWUSR | S_IRGRP | S_IWGRP | S_IROTH

datatype io_call =
    Open string "oflag list" "perm list"
  | Dup2 int int
  | Close int
  | WriteStderr string

type_synonym open_answers = "nat \<Rightarrow> int \<times> string"

text \<open>
  \<^verbatim>\<open>perror(s)\<close> writes \<^verbatim>\<open>s\<close>, a colon and a blank, the text of the current \<^verbatim>\<open>errno\<close>
  and a newline to the standard error stream.
\<close>

definition perror :: "string \<Rightarrow> string \<Rightarrow> string" where
  "perror s errno_text = s @ '': '' @ errno_text @ [CHR 0x0A]"

text \<open>
  \<^verbatim>\<open>print_file_redirection_error_str\<close>: \<^verbatim>\<open>sprintf\<close> builds the message in a buffer of
  \<open>100 + len\<close> bytes (the format adds 34 bytes and the terminator), then \<^verbatim>\<open>perror\<close>
  prints it. The result is the text that reaches descriptor 2.
\<close>

definition print_file_redirection_error_str :: "string \<Rightarrow> string \<Rightarrow> string" where
  "print_file_redirection_error_str filename errno_text =
     (let error_str = ''-yash: '' @ filename @ '': No such file or directory''
      in perror error_str errno_text)"

text \<open>
  The state threaded through \<^verbatim>\<open>apply_file_redirects\<close>: how many times \<^verbatim>\<open>open\<close> has been
  called, the local \<^verbatim>\<open>status\<close>, and the calls made so far.
\<close>

record redirect_state =
  opens_done :: nat
  rstatus :: int
  calls :: "io_call list"

text \<open>
  One of the three blocks of \<^verbatim>\<open>apply_file_redirects\<close>: open the file, on a negative
  descriptor set \<^verbatim>\<open>status = -1\<close> and print the diagnostic, then \<^verbatim>\<open>dup2\<close> and
  \<^verbatim>\<open>close\<close> in either case.
\<close>

definition redirect_block ::
  "open_answers \<Rightarrow> string \<Rightarrow> oflag list \<Rightarrow> perm list \<Rightarrow> int \<Rightarrow> redirect_state \<Rightarrow> redirect_state"
where
  "redirect_block sys filename flags mode target st =
     (let (fd, errno_text) = sys (opens_done st);
          st1 = st\<lparr>opens_done := opens_done st + 1,
                   calls := calls st @ [Open filename flags mode]\<rparr>;
          st2 = (if fd < 0
                 then st1\<lparr>rstatus := - 1,
                          calls := calls st1 @
                            [WriteStderr (print_file_redirection_error_str filename errno_text)]\<rparr>
                 else st1)
      in st2\<lparr>calls := calls st2 @ [Dup2 fd target, Close fd]\<rparr>)"

definition nuke_all_file_descriptors :: "redirect_state \<Rightarrow> redirect_state" where
  "nuke_all_file_descriptors st =
     st\<lparr>calls := calls st @
        [Dup2 STDIN_FILENO STDIN_FILENO, Dup2 STDOUT_FILENO STDIN_FILENO,
         Dup2 STDERR_FILENO STDIN_FILENO]\<rparr>"

definition apply_file_redirects :: "open_answers \<Rightarrow> process_t \<Rightarrow> int \<times> io_call list" where
  "apply_file_redirects sys process =
     (let st0 = \<lparr>opens_done = 0, rstatus = 0, calls = []\<rparr>;
          st1 = (case redirect_error_filename process of
                   None \<Rightarrow> st0
                 | Some f \<Rightarrow>
                     redirect_block sys f [O_CREAT, O_WRONLY, O_TRUNC]
                       [S_IRUSR, S_IWUSR, S_IRGRP, S_IWGRP, S_IROTH] STDERR_FILENO st0);
          st2 = (case redirect_input_filename process of
                   None \<Rightarrow> st1
                 | Some f \<Rightarrow> redirect_block sys f [O_RDONLY] [] STDIN_FILENO st1);
          st3 = (case redirect_output_filename process of
                   None \<Rightarrow> st2
                 | Some f \<Rightarrow>
                     redirect_block sys f [O_CREAT, O_WRONLY, O_TRUNC]
                       [S_IRUSR, S_IWUSR, S_IRGRP, S_IWGRP, S_IROTH] STDOUT_FILENO st2)
      in if rstatus st3 = - 1
         then (FILE_REDIRECTION_ERROR, calls (nuke_all_file_descriptors st3))
         else (SUCCESS, calls st3))"


section \<open>Jobs and the parser\<close>

text \<open>
  \<^verbatim>\<open>job_t\<close>. Jobs live in allocated memory and are chained through \<^verbatim>\<open>next\<close>; an
  address is a natural number and the field \<^verbatim>\<open>next\<close> is \<open>next_job\<close>. The two processes
  and the command string belong to their job alone, so they are kept inside the record.
\<close>

type_synonym addr = nat

record job_t =
  pgid :: int
  command :: string
  job_number :: int
  background :: int
  status :: job_status
  first_process :: "process_t option"
  second_process :: "process_t option"
  next_job :: "addr option"

text \<open>A job right after \<^verbatim>\<open>memset(job, 0, sizeof(job_t))\<close>.\<close>

definition zero_job :: job_t where
  "zero_job = \<lparr>pgid = 0, command = [], job_number = 0, background = 0, status = RUNNING,
     first_process = None, second_process = None, next_job = None\<rparr>"

text \<open>
  \<^verbatim>\<open>process_input\<close> returns \<^verbatim>\<open>COMMAND_PROCESSING_ERROR\<close> after printing one line, or
  \<^verbatim>\<open>SUCCESS\<close> with the job filled in. The error value carries the line printed. A store
  outside the \<open>MAX_ARGS + 1\<close> slots of \<^verbatim>\<open>argv\<close> is an outcome of its own.
\<close>

datatype parse_error = ParseError string | ArgvOutOfBounds

definition input_redirect_message :: string where
  "input_redirect_message =
     ''Error [process_input]: < needs to be placed between two tokens'' @ [CHR 0x0A]"

definition output_redirect_message :: string where
  "output_redirect_message =
     ''Error [process_input]: > needs to be placed between two command tokens'' @ [CHR 0x0A]"

definition error_redirect_message :: string where
  "error_redirect_message =
     ''Error [process_input]: 2> needs to be placed between two command tokens'' @ [CHR 0x0A]"

definition pipe_message :: string where
  "pipe_message =
     ''Error [process_input]: | needs to be placed between two command tokens'' @ [CHR 0x0A]"

definition background_message :: string where
  "background_message =
     ''Error [process_input]: & cannot be the only command, and can only be placed at the end of a command''
       @ [CHR 0x0A]"

text \<open>
  The \<^verbatim>\<open>while\<close> loop of \<^verbatim>\<open>process_input\<close>, one call per iteration. The arguments are
  the locals \<^verbatim>\<open>ind\<close>, \<^verbatim>\<open>argv_ind\<close>, \<^verbatim>\<open>creating_second_process\<close>, the process under
  construction and the job. A redirection operator advances \<^verbatim>\<open>ind\<close> twice (\<^verbatim>\<open>++ind\<close>
  for the file name, \<^verbatim>\<open>ind++\<close> at the end of the body); \<^verbatim>\<open>argv_ind\<close> is incremented
  once per iteration whatever the token was, and a pipe resets it to \<open>-1\<close> first.
\<close>

function process_input_loop ::
  "string list \<Rightarrow> nat \<Rightarrow> int \<Rightarrow> bool \<Rightarrow> process_t \<Rightarrow> job_t \<Rightarrow> parse_error + job_t"
where
  "process_input_loop toks ind argv_ind creating_second_process process job =
     (if ind < length toks then
        (if toks ! ind = INPUT_REDIRECT then
           (if argv_ind = 0 \<or> ind + 1 = length toks
            then Inl (ParseError input_redirect_message)
            else process_input_loop toks (ind + 1 + 1) (argv_ind + 1) creating_second_process
                   (process\<lparr>redirect_input_filename := Some (toks ! (ind + 1))\<rparr>) job)
         else if toks ! ind = OUTPUT_REDIRECT then
           (if argv_ind = 0 \<or> ind + 1 = length toks
            then Inl (ParseError output_redirect_message)
            else process_input_loop toks (ind + 1 + 1) (argv_ind + 1) creating_second_process
                   (process\<lparr>redirect_output_filename := Some (toks ! (ind + 1))\<rparr>) job)
         else if toks ! ind = ERROR_REDIRECT then
           (if argv_ind = 0 \<or> ind + 1 = length toks
            then Inl (ParseError error_redirect_message)
            else process_input_loop toks (ind + 1 + 1) (argv_ind + 1) creating_second_process
                   (process\<lparr>redirect_error_filename := Some (toks ! (ind + 1))\<rparr>) job)
         else if toks ! ind = PIPE then
           (if argv_ind = 0 \<or> ind + 1 = length toks
            then Inl (ParseError pipe_message)
            else process_input_loop toks (ind + 1) (- 1 + 1) True
                   zero_process (job\<lparr>first_process := Some process\<rparr>))
         else if toks ! ind = SEND_TO_BACKGROUND then
           (if ind = 0 \<or> ind + 1 < length toks
            then Inl (ParseError background_message)
            else process_input_loop toks (ind + 1) (argv_ind + 1) creating_second_process
                   process (job\<lparr>background := 1\<rparr>))
         else
           (if argv_ind < 0 \<or> int (MAX_ARGS + 1) \<le> argv_ind
            then Inl ArgvOutOfBounds
            else process_input_loop toks (ind + 1) (argv_ind + 1) creating_second_process
                   (process\<lparr>argv := (argv process)(nat argv_ind \<mapsto> toks ! ind)\<rparr>) job))
      else
        (if \<not> creating_second_process
         then Inr (job\<lparr>first_process := Some process\<rparr>)
         else Inr (job\<lparr>second_process := Some process\<rparr>)))"
  by pat_completeness auto
termination
  by (relation "measure (\<lambda>(toks, ind, rest). length toks - ind)") auto

declare process_input_loop.simps [simp del]

definition process_input :: "string list \<Rightarrow> job_t \<Rightarrow> parse_error + job_t" where
  "process_input toks job = process_input_loop toks 0 0 False zero_process job"

section \<open>The command string of a job\<close>

text \<open>
  The test \<^verbatim>\<open>command[len - 1] == '&' && command[len - 2] == ' '\<close>. With \<open>len = 0\<close>, or
  with the one-byte string \<^verbatim>\<open>&\<close>, it reads the byte in front of the string: no result.
\<close>

definition has_bg_suffix :: "string \<Rightarrow> bool option" where
  "has_bg_suffix cmd =
     (let len = int (length cmd) in
      if len - 1 < 0 then None
      else if cmd ! nat (len - 1) \<noteq> CHR ''&'' then Some False
      else if len - 2 < 0 then None
      else Some (cmd ! nat (len - 2) = CHR '' ''))"

definition bg_suffix :: string where
  "bg_suffix = '' &''"

text \<open>
  \<^verbatim>\<open>update_job_command_str\<close>. The array \<^verbatim>\<open>bg_suffix\<close> is declared with two elements,
  so it holds the blank and the ampersand and no terminator: \<^verbatim>\<open>strcat\<close> goes on copying
  whatever bytes lie behind the array up to the first NUL. These bytes are the argument
  \<open>behind\<close>; they end up in the command string. (The destination is allocated with
  \<open>len + 3\<close> bytes, so they are written behind its end, and the function returns all the
  same.) Towards the foreground the two NUL bytes cut the string two bytes short.
\<close>

definition update_job_command_str :: "string \<Rightarrow> job_t \<Rightarrow> int \<Rightarrow> job_t option" where
  "update_job_command_str behind job apply_bg =
     (let len = length (command job) in
      if apply_bg \<noteq> 0 then do {
        suffixed \<leftarrow> has_bg_suffix (command job);
        if suffixed then Some job
        else Some (job\<lparr>command := command job @ bg_suffix @ behind\<rparr>)
      } else do {
        suffixed \<leftarrow> has_bg_suffix (command job);
        if \<not> suffixed then Some job
        else Some (job\<lparr>command := take (len - 2) (command job)\<rparr>)
      })"

section \<open>The job table\<close>

text \<open>
  The wait status macros and signal numbers are those of the Linux headers:
  \<^verbatim>\<open>WIFSTOPPED(s)\<close> is \<^verbatim>\<open>(s & 0xff) == 0x7f\<close> and \<^verbatim>\<open>WSTOPSIG(s)\<close> is
  \<^verbatim>\<open>(s & 0xff00) >> 8\<close>.
\<close>

definition SIGCONT :: int where "SIGCONT = 18"
definition SIGSTOP :: int where "SIGSTOP = 19"
definition SIGTSTP :: int where "SIGTSTP = 20"

definition WIFSTOPPED :: "int \<Rightarrow> bool" where
  "WIFSTOPPED wstatus \<longleftrightarrow> wstatus AND 0xff = 0x7f"

definition WSTOPSIG :: "int \<Rightarrow> int" where
  "WSTOPSIG wstatus = drop_bit 8 (wstatus AND 0xff00)"

text \<open>
  The state of the shell process: the allocated jobs, the global \<^verbatim>\<open>job_list_head\<close>, the
  global \<^verbatim>\<open>shell_pid\<close>, and what the shell has done to the outside so far (lines printed,
  signals sent, terminal hand-overs). A function that walks the list has no result
  (\<open>None\<close>) when the walk never ends or meets an address that holds no job.
\<close>

datatype effect = Stdout string | Kill int int | Tcsetpgrp int int

record shell =
  heap :: "addr \<Rightarrow> job_t option"
  job_list_head :: "addr option"
  shell_pid :: int
  effects :: "effect list"

text \<open>An assignment through a job pointer, \<^verbatim>\<open>job->field = value\<close>.\<close>

definition store_job :: "addr \<Rightarrow> (job_t \<Rightarrow> job_t) \<Rightarrow> shell \<Rightarrow> shell option" where
  "store_job a f s =
     (case heap s a of None \<Rightarrow> None | Some j \<Rightarrow> Some (s\<lparr>heap := (heap s)(a \<mapsto> f j)\<rparr>))"

text \<open>\<^verbatim>\<open>free_job\<close> releases the processes, the command string and the job itself.\<close>

definition free_job :: "addr \<Rightarrow> shell \<Rightarrow> shell" where
  "free_job a s = s\<lparr>heap := (heap s)(a := None)\<rparr>"

partial_function (option) find_job_loop ::
  "(addr \<Rightarrow> job_t option) \<Rightarrow> addr option \<Rightarrow> int \<Rightarrow> addr option option"
where
  "find_job_loop h cur pg =
     (case cur of
        None \<Rightarrow> Some None
      | Some c \<Rightarrow>
          (case h c of
             None \<Rightarrow> None
           | Some cj \<Rightarrow>
               if pgid cj = pg then Some (Some c) else find_job_loop h (next_job cj) pg))"

definition find_job :: "int \<Rightarrow> shell \<Rightarrow> addr option option" where
  "find_job pg s = find_job_loop (heap s) (job_list_head s) pg"

text \<open>
  \<^verbatim>\<open>remove_job\<close> unlinks the first job with the given pgid: the head, or the \<^verbatim>\<open>next\<close>
  field of its predecessor, is set to its successor. The \<^verbatim>\<open>next\<close> field of the unlinked
  job itself is left as it was.
\<close>

partial_function (option) remove_job_loop ::
  "shell \<Rightarrow> addr option \<Rightarrow> addr option \<Rightarrow> int \<Rightarrow> int \<Rightarrow> (int \<times> shell) option"
where
  "remove_job_loop s cur prev pg fg_free =
     (case cur of
        None \<Rightarrow> Some (0, s)
      | Some c \<Rightarrow>
          (case heap s c of
             None \<Rightarrow> None
           | Some cj \<Rightarrow>
               if pgid cj = pg then
                 (case prev of
                    None \<Rightarrow>
                      (let s1 = s\<lparr>job_list_head := next_job cj\<rparr>
                       in Some (1, if fg_free \<noteq> 0 then free_job c s1 else s1))
                  | Some p \<Rightarrow>
                      (case heap s p of
                         None \<Rightarrow> None
                       | Some pj \<Rightarrow>
                           (let s1 = s\<lparr>heap := (heap s)(p \<mapsto> pj\<lparr>next_job := next_job cj\<rparr>)\<rparr>
                            in Some (1, if fg_free \<noteq> 0 then free_job c s1 else s1))))
               else remove_job_loop s (next_job cj) (Some c) pg fg_free))"

definition remove_job :: "int \<Rightarrow> int \<Rightarrow> shell \<Rightarrow> (int \<times> shell) option" where
  "remove_job pg fg_free s = remove_job_loop s (job_list_head s) None pg fg_free"

text \<open>
  \<^verbatim>\<open>add_job\<close> makes the job the head of an empty list, or stores its address in the
  \<^verbatim>\<open>next\<close> field of the last job. It writes no field of the job it adds.
\<close>

partial_function (option) add_job_loop :: "shell \<Rightarrow> addr option \<Rightarrow> addr \<Rightarrow> shell option"
where
  "add_job_loop s cur job =
     (case cur of
        None \<Rightarrow> Some s
      | Some c \<Rightarrow>
          (case heap s c of
             None \<Rightarrow> None
           | Some cj \<Rightarrow>
               if next_job cj = None
               then Some (s\<lparr>heap := (heap s)(c \<mapsto> cj\<lparr>next_job := Some job\<rparr>)\<rparr>)
               else add_job_loop s (next_job cj) job))"

definition add_job :: "addr \<Rightarrow> shell \<Rightarrow> shell option" where
  "add_job job s =
     (if job_list_head s = None then Some (s\<lparr>job_list_head := Some job\<rparr>)
      else add_job_loop s (job_list_head s) job)"

partial_function (option) find_most_recent_job_num_loop ::
  "(addr \<Rightarrow> job_t option) \<Rightarrow> addr option \<Rightarrow> int \<Rightarrow> int option"
where
  "find_most_recent_job_num_loop h cur recent_job_num =
     (case cur of
        None \<Rightarrow> Some recent_job_num
      | Some c \<Rightarrow>
          (case h c of
             None \<Rightarrow> None
           | Some cj \<Rightarrow>
               find_most_recent_job_num_loop h (next_job cj)
                 (if job_number cj > recent_job_num \<and> background cj \<noteq> 0
                  then job_number cj else recent_job_num)))"

definition find_most_recent_job_num :: "shell \<Rightarrow> int option" where
  "find_most_recent_job_num s = find_most_recent_job_num_loop (heap s) (job_list_head s) 0"

partial_function (option) find_next_job_to_fg_loop ::
  "(addr \<Rightarrow> job_t option) \<Rightarrow> addr option \<Rightarrow> addr option \<Rightarrow> addr option option"
where
  "find_next_job_to_fg_loop h cur job_to_continue =
     (case cur of
        None \<Rightarrow> Some job_to_continue
      | Some c \<Rightarrow>
          (case h c of
             None \<Rightarrow> None
           | Some cj \<Rightarrow>
               find_next_job_to_fg_loop h (next_job cj)
                 (if status cj \<noteq> DONE then Some c else job_to_continue)))"

definition find_next_job_to_fg :: "shell \<Rightarrow> addr option option" where
  "find_next_job_to_fg s =
     (if job_list_head s = None then Some None
      else find_next_job_to_fg_loop (heap s) (job_list_head s) None)"

text \<open>
  \<^verbatim>\<open>free_job_table\<close> reads \<^verbatim>\<open>next\<close> before it frees a job, and leaves
  \<^verbatim>\<open>job_list_head\<close> as it is.
\<close>

partial_function (option) free_job_table_loop :: "shell \<Rightarrow> addr option \<Rightarrow> shell option"
where
  "free_job_table_loop s cur =
     (case cur of
        None \<Rightarrow> Some s
      | Some c \<Rightarrow>
          (case heap s c of
             None \<Rightarrow> None
           | Some cj \<Rightarrow> free_job_table_loop (free_job c s) (next_job cj)))"

definition free_job_table :: "shell \<Rightarrow> shell option" where
  "free_job_table s = free_job_table_loop s (job_list_head s)"

section \<open>Reconciling child statuses\<close>

definition update_job_status :: "int \<Rightarrow> int \<Rightarrow> shell \<Rightarrow> (int \<times> shell) option" where
  "update_job_status wstatus pid s =
     (if pid \<le> 0 then Some (0, s)
      else do {
        found \<leftarrow> find_job pid s;
        case found of
          None \<Rightarrow> Some (1, s)
        | Some job \<Rightarrow>
            if WIFSTOPPED wstatus then do {
              s1 \<leftarrow> store_job job (\<lambda>j. j\<lparr>status := STOPPED\<rparr>) s;
              if WSTOPSIG wstatus = SIGTSTP \<or> WSTOPSIG wstatus = SIGSTOP then do {
                s2 \<leftarrow> store_job job (\<lambda>j. j\<lparr>background := 1\<rparr>) s1;
                j \<leftarrow> heap s2 job;
                if job_number j = FG_JOB_NUM then do {
                  (r, s3) \<leftarrow> remove_job pid 0 s2;
                  n \<leftarrow> find_most_recent_job_num s3;
                  s4 \<leftarrow> store_job job (\<lambda>j. j\<lparr>job_number := n + 1\<rparr>) s3;
                  s5 \<leftarrow> add_job job s4;
                  Some (1, s5)
                } else Some (1, s2)
              } else Some (1, s1)
            } else do {
              s1 \<leftarrow> store_job job (\<lambda>j. j\<lparr>status := DONE\<rparr>) s;
              Some (1, s1)
            }
      })"

text \<open>
  The answers of \<^verbatim>\<open>waitpid\<close> come from outside, as the list of the pairs (status, pid) that
  the successive calls return. A loop that needs more answers than the list holds has no
  result. \<^verbatim>\<open>update_job_table_statuses\<close> is a do-while loop: it asks first.
\<close>

type_synonym wait_answers = "(int \<times> int) list"

fun update_job_table_statuses :: "wait_answers \<Rightarrow> shell \<Rightarrow> (wait_answers \<times> shell) option"
where
  "update_job_table_statuses [] s = None"
| "update_job_table_statuses ((wstatus, pid) # ws) s =
     (case update_job_status wstatus pid s of
        None \<Rightarrow> None
      | Some (r, s') \<Rightarrow> if r \<noteq> 0 then update_job_table_statuses ws s' else Some (ws, s'))"

text \<open>
  The loop of \<^verbatim>\<open>execute_in_foreground\<close>; \<^verbatim>\<open>job->status\<close> is read only when
  \<^verbatim>\<open>update_job_status\<close> returned non-zero.
\<close>

fun foreground_wait :: "addr \<Rightarrow> wait_answers \<Rightarrow> shell \<Rightarrow> (wait_answers \<times> shell) option"
where
  "foreground_wait job [] s = None"
| "foreground_wait job ((wstatus, pid) # ws) s =
     (case update_job_status wstatus pid s of
        None \<Rightarrow> None
      | Some (r, s') \<Rightarrow>
          if r \<noteq> 0 then
            (case heap s' job of
               None \<Rightarrow> None
             | Some j \<Rightarrow> if status j = RUNNING then foreground_wait job ws s' else Some (ws, s'))
          else Some (ws, s'))"

definition execute_in_foreground ::
  "addr \<Rightarrow> wait_answers \<Rightarrow> shell \<Rightarrow> (wait_answers \<times> shell) option"
where
  "execute_in_foreground job ws s = do {
     j \<leftarrow> heap s job;
     let s1 = s\<lparr>effects := effects s @ [Tcsetpgrp STDIN_FILENO (pgid j)]\<rparr>;
     (ws', s2) \<leftarrow> foreground_wait job ws s1;
     Some (ws', s2\<lparr>effects := effects s2 @ [Tcsetpgrp STDIN_FILENO (shell_pid s2)]\<rparr>)
   }"

text \<open>
  \<^verbatim>\<open>continue_background_job\<close>; \<open>kill_result\<close> is what \<^verbatim>\<open>kill\<close> returns.
\<close>

definition continue_background_job ::
  "addr \<Rightarrow> int \<Rightarrow> int \<Rightarrow> wait_answers \<Rightarrow> shell \<Rightarrow> (wait_answers \<times> shell) option"
where
  "continue_background_job job fg kill_result ws s = do {
     j \<leftarrow> heap s job;
     let s1 = s\<lparr>effects := effects s @ [Kill (- pgid j) SIGCONT]\<rparr>;
     if kill_result < 0 then do {
       s2 \<leftarrow> store_job job (\<lambda>j. j\<lparr>status := STOPPED\<rparr>) s1;
       Some (ws, s2)
     } else if fg \<noteq> 0 then execute_in_foreground job ws s1
     else Some (ws, s1)
   }"

section \<open>Printing a job, and the built-in fg\<close>

text \<open>The conversion \<^verbatim>\<open>%d\<close> of \<^verbatim>\<open>printf\<close>.\<close>

fun decimal :: "nat \<Rightarrow> string" where
  "decimal n = (if n < 10 then [char_of (48 + n)] else decimal (n div 10) @ [char_of (48 + n mod 10)])"

declare decimal.simps [simp del]

definition printf_d :: "int \<Rightarrow> string" where
  "printf_d i = (if i < 0 then CHR ''-'' # decimal (nat (- i)) else decimal (nat i))"

definition status_name :: "job_status \<Rightarrow> string" where
  "status_name st = (case st of RUNNING \<Rightarrow> ''Running'' | STOPPED \<Rightarrow> ''Stopped'' | DONE \<Rightarrow> ''Done'')"

text \<open>\<^verbatim>\<open>print_job\<close>: the text written to the standard output.\<close>

definition print_job :: "job_t \<Rightarrow> int \<Rightarrow> int \<Rightarrow> int \<Rightarrow> string" where
  "print_job job is_most_recent_job custom_command command_is_fg =
     (if custom_command \<noteq> 0 \<and> command_is_fg \<noteq> 0 then
        command job @ [CHR 0x0A]
      else if is_most_recent_job \<noteq> 0 \<and> custom_command \<noteq> 0 \<and> command_is_fg = 0 then
        ''['' @ printf_d (job_number job) @ '']+'' @ [CHR 0x09] @ command job @ [CHR 0x0A]
      else if is_most_recent_job = 0 \<and> custom_command \<noteq> 0 \<and> command_is_fg = 0 then
        ''['' @ printf_d (job_number job) @ '']-'' @ [CHR 0x09] @ command job @ [CHR 0x0A]
      else if is_most_recent_job \<noteq> 0 \<and> custom_command = 0 then
        ''['' @ printf_d (job_number job) @ '']+'' @ [CHR 0x09] @ status_name (status job) @
          [CHR 0x09, CHR 0x09, CHR 0x09] @ command job @ [CHR 0x0A]
      else if is_most_recent_job = 0 \<and> custom_command = 0 then
        ''['' @ printf_d (job_number job) @ '']-'' @ [CHR 0x09] @ status_name (status job) @
          [CHR 0x09, CHR 0x09, CHR 0x09] @ command job @ [CHR 0x0A]
      else [])"

text \<open>
  \<^verbatim>\<open>execute_fg\<close>. Towards the foreground \<^verbatim>\<open>update_job_command_str\<close> calls no
  \<^verbatim>\<open>strcat\<close>, so the bytes behind \<^verbatim>\<open>bg_suffix\<close> play no part and are given as empty.
\<close>

definition execute_fg :: "wait_answers \<Rightarrow> int \<Rightarrow> shell \<Rightarrow> (wait_answers \<times> shell) option"
where
  "execute_fg ws kill_result s = do {
     (ws1, s1) \<leftarrow> update_job_table_statuses ws s;
     found \<leftarrow> find_next_job_to_fg s1;
     case found of
       None \<Rightarrow> Some (ws1, s1)
     | Some fg_job \<Rightarrow> do {
         j \<leftarrow> heap s1 fg_job;
         j' \<leftarrow> update_job_command_str [] j 0;
         let s2 = s1\<lparr>heap := (heap s1)(fg_job \<mapsto> j')\<rparr>;
         most_recent_job_num \<leftarrow> find_most_recent_job_num s2;
         let is_most_recent_job = (if most_recent_job_num = job_number j' then 1 else 0);
         s3 \<leftarrow> store_job fg_job (\<lambda>j. j\<lparr>status := RUNNING\<rparr>) s2;
         j3 \<leftarrow> heap s3 fg_job;
         let s4 = s3\<lparr>effects := effects s3 @ [Stdout (print_job j3 is_most_recent_job 1 1)]\<rparr>;
         s5 \<leftarrow> store_job fg_job (\<lambda>j. j\<lparr>background := 0\<rparr>) s4;
         continue_background_job fg_job 1 kill_result ws1 s5
       }
   }"

section \<open>The prompt loop up to end of input\<close>

text \<open>
  One turn of the \<^verbatim>\<open>while (1)\<close> loop of \<^verbatim>\<open>main\<close>, from the drain to the test of what
  \<^verbatim>\<open>readline\<close> returned (\<open>None\<close> is the \<^verbatim>\<open>NULL\<close> of end of input). What the loop does
  with a line that was read is the argument \<open>handle\<close>.
\<close>

datatype 'r turn = Exit int shell | Handled 'r

definition main_turn ::
  "(string \<Rightarrow> wait_answers \<Rightarrow> shell \<Rightarrow> 'r option) \<Rightarrow> wait_answers \<Rightarrow> string option \<Rightarrow> shell
     \<Rightarrow> 'r turn option"
where
  "main_turn handle ws line s = do {
     (ws1, s1) \<leftarrow> update_job_table_statuses ws s;
     case line of
       None \<Rightarrow> do {
         s2 \<leftarrow> free_job_table s1;
         Some (Exit EXIT_SUCCESS s2)
       }
     | Some command_line \<Rightarrow> map_option Handled (handle command_line ws1 s1)
   }"

section \<open>Notions used to state the properties\<close>

text \<open>Calls of the redirection applier, by kind.\<close>

fun is_open :: "io_call \<Rightarrow> bool" where
  "is_open (Open f fl m) = True"
| "is_open c = False"

fun is_diagnostic :: "io_call \<Rightarrow> bool" where
  "is_diagnostic (WriteStderr t) = True"
| "is_diagnostic c = False"

fun is_descriptor_call :: "io_call \<Rightarrow> bool" where
  "is_descriptor_call (WriteStderr t) = False"
| "is_descriptor_call c = True"

text \<open>The files opened by a sequence of calls, in order.\<close>

fun opened_files :: "io_call list \<Rightarrow> string list" where
  "opened_files [] = []"
| "opened_files (Open f fl m # cs) = f # opened_files cs"
| "opened_files (c # cs) = opened_files cs"

text \<open>The file names a process redirects to, in the order error, input, output.\<close>

definition redirect_files :: "process_t \<Rightarrow> string list" where
  "redirect_files p =
     (case redirect_error_filename p of None \<Rightarrow> [] | Some f \<Rightarrow> [f]) @
     (case redirect_input_filename p of None \<Rightarrow> [] | Some f \<Rightarrow> [f]) @
     (case redirect_output_filename p of None \<Rightarrow> [] | Some f \<Rightarrow> [f])"

text \<open>The state of the applier after its three blocks, before the final test.\<close>

definition redirects_done :: "open_answers \<Rightarrow> process_t \<Rightarrow> redirect_state" where
  "redirects_done sys process =
     (let st0 = \<lparr>opens_done = 0, rstatus = 0, calls = []\<rparr>;
          st1 = (case redirect_error_filename process of
                   None \<Rightarrow> st0
                 | Some f \<Rightarrow>
                     redirect_block sys f [O_CREAT, O_WRONLY, O_TRUNC]
                       [S_IRUSR, S_IWUSR, S_IRGRP, S_IWGRP, S_IROTH] STDERR_FILENO st0);
          st2 = (case redirect_input_filename process of
                   None \<Rightarrow> st1
                 | Some f \<Rightarrow> redirect_block sys f [O_RDONLY] [] STDIN_FILENO st1)
      in (case redirect_output_filename process of
            None \<Rightarrow> st2
          | Some f \<Rightarrow>
              redirect_block sys f [O_CREAT, O_WRONLY, O_TRUNC]
                [S_IRUSR, S_IWUSR, S_IRGRP, S_IWGRP, S_IROTH] STDOUT_FILENO st2))"

text \<open>
  A token is the file name of a redirection when the token in front of it is a redirection
  operator that is not itself such a file name.
\<close>

definition is_redirect :: "string \<Rightarrow> bool" where
  "is_redirect t \<longleftrightarrow> t = INPUT_REDIRECT \<or> t = OUTPUT_REDIRECT \<or> t = ERROR_REDIRECT"

fun filename_operand :: "string list \<Rightarrow> nat \<Rightarrow> bool" where
  "filename_operand toks 0 = False"
| "filename_operand toks (Suc i) = (is_redirect (toks ! i) \<and> \<not> filename_operand toks i)"

text \<open>
  The job table is a list when following \<^verbatim>\<open>next\<close> from the head passes through the
  addresses \<open>as\<close>, each holding a job, and then reaches \<^verbatim>\<open>NULL\<close>.
\<close>

fun job_path :: "(addr \<Rightarrow> job_t option) \<Rightarrow> addr option \<Rightarrow> addr list \<Rightarrow> bool" where
  "job_path h p [] = (p = None)"
| "job_path h p (a # as) =
     (p = Some a \<and> (case h a of None \<Rightarrow> False | Some j \<Rightarrow> job_path h (next_job j) as))"

definition job_table :: "shell \<Rightarrow> addr list \<Rightarrow> bool" where
  "job_table s as = job_path (heap s) (job_list_head s) as"

text \<open>The last address of the table whose job is not \<open>DONE\<close>.\<close>

definition not_done :: "shell \<Rightarrow> addr \<Rightarrow> bool" where
  "not_done s a = (case heap s a of None \<Rightarrow> False | Some j \<Rightarrow> status j \<noteq> DONE)"

definition last_not_done :: "shell \<Rightarrow> addr list \<Rightarrow> addr option" where
  "last_not_done s as =
     (case filter (not_done s) as of [] \<Rightarrow> None | x # xs \<Rightarrow> Some (last (x # xs)))"

text \<open>
  Whether the job at an address has a given pgid, and the job numbers of the background jobs
  at a list of addresses.
\<close>

definition has_pgid :: "shell \<Rightarrow> int \<Rightarrow> addr \<Rightarrow> bool" where
  "has_pgid s pg a = (case heap s a of None \<Rightarrow> False | Some j \<Rightarrow> pgid j = pg)"

definition background_numbers :: "(addr \<Rightarrow> job_t option) \<Rightarrow> addr list \<Rightarrow> int list" where
  "background_numbers h as =
     concat (map (\<lambda>a. case h a of None \<Rightarrow> []
                        | Some j \<Rightarrow> if background j \<noteq> 0 then [job_number j] else []) as)"

section \<open>Example states\<close>

text \<open>
  A table of two jobs: a stopped job that still carries the foreground job number, followed
  by a running background job.
\<close>

definition example_table :: shell where
  "example_table =
     \<lparr>heap = [1 \<mapsto> zero_job\<lparr>pgid := 10, command := ''cat'', job_number := - 1,
                   status := STOPPED, next_job := Some 2\<rparr>,
              2 \<mapsto> zero_job\<lparr>pgid := 11, command := ''sleep 100 &'', job_number := 1,
                   background := 1\<rparr>],
      job_list_head = Some 1, shell_pid = 5, effects = []\<rparr>"

text \<open>The same two jobs, each one the \<^verbatim>\<open>next\<close> of the other.\<close>

definition relinked_table :: shell where
  "relinked_table =
     \<lparr>heap = [1 \<mapsto> zero_job\<lparr>pgid := 10, command := ''cat'', job_number := 2,
                   background := 1, status := STOPPED, next_job := Some 2\<rparr>,
              2 \<mapsto> zero_job\<lparr>pgid := 11, command := ''sleep 100 &'', job_number := 1,
                   background := 1, next_job := Some 1\<rparr>],
      job_list_head = Some 2, shell_pid = 5, effects = []\<rparr>"

definition empty_table :: shell where
  "empty_table = \<lparr>heap = Map.empty, job_list_head = None, shell_pid = 5, effects = []\<rparr>"

section \<open>Properties\<close>

subsection \<open>The redirection applier\<close>

lemma opened_files_append: "opened_files (xs @ ys) = opened_files xs @ opened_files ys"
  by (induction xs rule: opened_files.induct) simp_all

lemma apply_file_redirects_unfold:
  "apply_file_redirects sys p =
     (if rstatus (redirects_done sys p) = - 1
      then (FILE_REDIRECTION_ERROR,
            calls (redirects_done sys p) @ [Dup2 0 0, Dup2 1 0, Dup2 2 0])
      else (SUCCESS, calls (redirects_done sys p)))"
  by (simp add: apply_file_redirects_def redirects_done_def Let_def
      nuke_all_file_descriptors_def STDIN_FILENO_def STDOUT_FILENO_def STDERR_FILENO_def)

lemma redirect_block_calls:
  "calls (redirect_block sys f fl m t st) =
     calls st @ Open f fl m #
       (if fst (sys (opens_done st)) < 0
        then [WriteStderr (print_file_redirection_error_str f (snd (sys (opens_done st))))]
        else []) @
       [Dup2 (fst (sys (opens_done st))) t, Close (fst (sys (opens_done st)))]"
  by (simp add: redirect_block_def Let_def split: prod.split)

lemma redirect_block_opens_done:
  "opens_done (redirect_block sys f fl m t st) = Suc (opens_done st)"
  by (simp add: redirect_block_def Let_def split: prod.split)

lemma redirect_block_rstatus:
  "rstatus (redirect_block sys f fl m t st) =
     (if fst (sys (opens_done st)) < 0 then - 1 else rstatus st)"
  by (simp add: redirect_block_def Let_def split: prod.split)

lemmas redirect_block_simps =
  redirect_block_calls redirect_block_opens_done redirect_block_rstatus

lemma redirects_done_opens:
  "filter is_open (calls (redirects_done sys p)) =
     (case redirect_error_filename p of None \<Rightarrow> []
      | Some f \<Rightarrow> [Open f [O_CREAT, O_WRONLY, O_TRUNC] [S_IRUSR, S_IWUSR, S_IRGRP, S_IWGRP, S_IROTH]]) @
     (case redirect_input_filename p of None \<Rightarrow> [] | Some f \<Rightarrow> [Open f [O_RDONLY] []]) @
     (case redirect_output_filename p of None \<Rightarrow> []
      | Some f \<Rightarrow> [Open f [O_CREAT, O_WRONLY, O_TRUNC] [S_IRUSR, S_IWUSR, S_IRGRP, S_IWGRP, S_IROTH]])"
  by (cases "redirect_error_filename p"; cases "redirect_input_filename p";
      cases "redirect_output_filename p")
     (simp_all add: redirects_done_def redirect_block_simps)

lemma redirects_done_descriptor_calls:
  "filter is_descriptor_call (calls (redirects_done sys p)) =
     (case redirect_error_filename p of None \<Rightarrow> []
      | Some f \<Rightarrow>
          [Open f [O_CREAT, O_WRONLY, O_TRUNC] [S_IRUSR, S_IWUSR, S_IRGRP, S_IWGRP, S_IROTH],
           Dup2 (fst (sys 0)) 2, Close (fst (sys 0))]) @
     (case redirect_input_filename p of None \<Rightarrow> []
      | Some f \<Rightarrow>
          [Open f [O_RDONLY] [],
           Dup2 (fst (sys (case redirect_error_filename p of None \<Rightarrow> 0 | Some e \<Rightarrow> 1))) 0,
           Close (fst (sys (case redirect_error_filename p of None \<Rightarrow> 0 | Some e \<Rightarrow> 1)))]) @
     (case redirect_output_filename p of None \<Rightarrow> []
      | Some f \<Rightarrow>
          [Open f [O_CREAT, O_WRONLY, O_TRUNC] [S_IRUSR, S_IWUSR, S_IRGRP, S_IWGRP, S_IROTH],
           Dup2 (fst (sys ((case redirect_error_filename p of None \<Rightarrow> 0 | Some e \<Rightarrow> 1) +
                           (case redirect_input_filename p of None \<Rightarrow> 0 | Some i \<Rightarrow> 1)))) 1,
           Close (fst (sys ((case redirect_error_filename p of None \<Rightarrow> 0 | Some e \<Rightarrow> 1) +
                            (case redirect_input_filename p of None \<Rightarrow> 0 | Some i \<Rightarrow> 1))))])"
  by (cases "redirect_error_filename p"; cases "redirect_input_filename p";
      cases "redirect_output_filename p")
     (simp_all add: redirects_done_def redirect_block_simps
        STDIN_FILENO_def STDOUT_FILENO_def STDERR_FILENO_def)

lemma redirects_done_files:
  "opened_files (calls (redirects_done sys p)) = redirect_files p"
  by (cases "redirect_error_filename p"; cases "redirect_input_filename p";
      cases "redirect_output_filename p")
     (simp_all add: redirects_done_def redirect_block_simps redirect_files_def
        opened_files_append)

lemma redirects_done_diagnostics:
  "filter is_diagnostic (calls (redirects_done sys p)) =
     map (\<lambda>k. WriteStderr (print_file_redirection_error_str (redirect_files p ! k) (snd (sys k))))
       (filter (\<lambda>k. fst (sys k) < 0) [0..<length (redirect_files p)])"
  by (cases "redirect_error_filename p"; cases "redirect_input_filename p";
      cases "redirect_output_filename p")
     (simp_all add: redirects_done_def redirect_block_simps redirect_files_def)

lemma redirects_done_rstatus:
  "rstatus (redirects_done sys p) = - 1 \<longleftrightarrow>
     filter (\<lambda>k. fst (sys k) < 0) [0..<length (redirect_files p)] \<noteq> []"
  by (cases "redirect_error_filename p"; cases "redirect_input_filename p";
      cases "redirect_output_filename p")
     (simp_all add: redirects_done_def redirect_block_simps redirect_files_def)

text \<open>
  C4. When the open of the input file fails, what reaches the standard error stream is the
  formatted line followed by a colon, the text of \<^verbatim>\<open>errno\<close> and a newline: for a missing
  file the text ``No such file or directory'' appears twice.
\<close>

theorem apply_file_redirects_missing_input:
  "apply_file_redirects (\<lambda>n. (- 1, ''No such file or directory''))
     (zero_process\<lparr>redirect_input_filename := Some ''missing''\<rparr>) =
   (FILE_REDIRECTION_ERROR,
    [Open ''missing'' [O_RDONLY] [],
     WriteStderr
       (''-yash: missing: No such file or directory: No such file or directory'' @ [CHR 0x0A]),
     Dup2 (- 1) 0, Close (- 1), Dup2 0 0, Dup2 1 0, Dup2 2 0])"
  by (simp add: apply_file_redirects_unfold redirects_done_def redirect_block_simps
      print_file_redirection_error_str_def perror_def zero_process_def STDIN_FILENO_def)

text \<open>
  C5. The files are opened in the order error, input, output, each only if it is set: the
  input file read-only, the other two with create, write-only and truncate and the mode
  rw-rw-r--. Right after each open, and before the next file is opened, the descriptor
  that this open returned is duplicated onto the standard descriptor of the redirection
  (2, 0 and 1) and closed. Apart from the diagnostics of failed opens these are all the
  calls of the three blocks; whatever comes after them is the final discarding of the
  descriptors.
\<close>

theorem apply_file_redirects_order:
  "filter is_open (snd (apply_file_redirects sys p)) =
     (case redirect_error_filename p of None \<Rightarrow> []
      | Some f \<Rightarrow> [Open f [O_CREAT, O_WRONLY, O_TRUNC] [S_IRUSR, S_IWUSR, S_IRGRP, S_IWGRP, S_IROTH]]) @
     (case redirect_input_filename p of None \<Rightarrow> [] | Some f \<Rightarrow> [Open f [O_RDONLY] []]) @
     (case redirect_output_filename p of None \<Rightarrow> []
      | Some f \<Rightarrow> [Open f [O_CREAT, O_WRONLY, O_TRUNC] [S_IRUSR, S_IWUSR, S_IRGRP, S_IWGRP, S_IROTH]])
   \<and> (\<exists>body rest. snd (apply_file_redirects sys p) = body @ rest
        \<and> (rest = [] \<or> rest = [Dup2 0 0, Dup2 1 0, Dup2 2 0])
        \<and> filter is_descriptor_call body =
            (case redirect_error_filename p of None \<Rightarrow> []
             | Some f \<Rightarrow>
                 [Open f [O_CREAT, O_WRONLY, O_TRUNC]
                    [S_IRUSR, S_IWUSR, S_IRGRP, S_IWGRP, S_IROTH],
                  Dup2 (fst (sys 0)) 2, Close (fst (sys 0))]) @
            (case redirect_input_filename p of None \<Rightarrow> []
             | Some f \<Rightarrow>
                 [Open f [O_RDONLY] [],
                  Dup2 (fst (sys (case redirect_error_filename p of None \<Rightarrow> 0 | Some e \<Rightarrow> 1))) 0,
                  Close (fst (sys (case redirect_error_filename p of None \<Rightarrow> 0 | Some e \<Rightarrow> 1)))]) @
            (case redirect_output_filename p of None \<Rightarrow> []
             | Some f \<Rightarrow>
                 [Open f [O_CREAT, O_WRONLY, O_TRUNC]
                    [S_IRUSR, S_IWUSR, S_IRGRP, S_IWGRP, S_IROTH],
                  Dup2 (fst (sys ((case redirect_error_filename p of None \<Rightarrow> 0 | Some e \<Rightarrow> 1) +
                        (case redirect_input_filename p of None \<Rightarrow> 0 | Some i \<Rightarrow> 1)))) 1,
                  Close (fst (sys ((case redirect_error_filename p of None \<Rightarrow> 0 | Some e \<Rightarrow> 1) +
                        (case redirect_input_filename p of None \<Rightarrow> 0 | Some i \<Rightarrow> 1))))]))"
proof (intro conjI)
  show "filter is_open (snd (apply_file_redirects sys p)) =
     (case redirect_error_filename p of None \<Rightarrow> []
      | Some f \<Rightarrow> [Open f [O_CREAT, O_WRONLY, O_TRUNC] [S_IRUSR, S_IWUSR, S_IRGRP, S_IWGRP, S_IROTH]]) @
     (case redirect_input_filename p of None \<Rightarrow> [] | Some f \<Rightarrow> [Open f [O_RDONLY] []]) @
     (case redirect_output_filename p of None \<Rightarrow> []
      | Some f \<Rightarrow> [Open f [O_CREAT, O_WRONLY, O_TRUNC] [S_IRUSR, S_IWUSR, S_IRGRP, S_IWGRP, S_IROTH]])"
    using redirects_done_opens [of sys p] by (simp add: apply_file_redirects_unfold)
  let ?rest = "if rstatus (redirects_done sys p) = - 1 then [Dup2 0 0, Dup2 1 0, Dup2 2 0] else []"
  have "snd (apply_file_redirects sys p) = calls (redirects_done sys p) @ ?rest"
    by (simp add: apply_file_redirects_unfold)
  moreover have "?rest = [] \<or> ?rest = [Dup2 0 0, Dup2 1 0, Dup2 2 0]" by simp
  ultimately show "\<exists>body rest. snd (apply_file_redirects sys p) = body @ rest
        \<and> (rest = [] \<or> rest = [Dup2 0 0, Dup2 1 0, Dup2 2 0])
        \<and> filter is_descriptor_call body =
            (case redirect_error_filename p of None \<Rightarrow> []
             | Some f \<Rightarrow>
                 [Open f [O_CREAT, O_WRONLY, O_TRUNC]
                    [S_IRUSR, S_IWUSR, S_IRGRP, S_IWGRP, S_IROTH],
                  Dup2 (fst (sys 0)) 2, Close (fst (sys 0))]) @
            (case redirect_input_filename p of None \<Rightarrow> []
             | Some f \<Rightarrow>
                 [Open f [O_RDONLY] [],
                  Dup2 (fst (sys (case redirect_error_filename p of None \<Rightarrow> 0 | Some e \<Rightarrow> 1))) 0,
                  Close (fst (sys (case redirect_error_filename p of None \<Rightarrow> 0 | Some e \<Rightarrow> 1)))]) @
            (case redirect_output_filename p of None \<Rightarrow> []
             | Some f \<Rightarrow>
                 [Open f [O_CREAT, O_WRONLY, O_TRUNC]
                    [S_IRUSR, S_IWUSR, S_IRGRP, S_IWGRP, S_IROTH],
                  Dup2 (fst (sys ((case redirect_error_filename p of None \<Rightarrow> 0 | Some e \<Rightarrow> 1) +
                        (case redirect_input_filename p of None \<Rightarrow> 0 | Some i \<Rightarrow> 1)))) 1,
                  Close (fst (sys ((case redirect_error_filename p of None \<Rightarrow> 0 | Some e \<Rightarrow> 1) +
                        (case redirect_input_filename p of None \<Rightarrow> 0 | Some i \<Rightarrow> 1))))])"
    using redirects_done_descriptor_calls [of sys p] by blast
qed

theorem apply_file_redirects_order_witness:
  "apply_file_redirects (\<lambda>n. (int n + 3, []))
      \<lparr>argv = [0 \<mapsto> ''sort''], redirect_input_filename = Some ''in.txt'',
        redirect_output_filename = Some ''out.txt'', redirect_error_filename = Some ''err.txt''\<rparr> =
   (SUCCESS,
    [Open ''err.txt'' [O_CREAT, O_WRONLY, O_TRUNC] [S_IRUSR, S_IWUSR, S_IRGRP, S_IWGRP, S_IROTH],
     Dup2 3 2, Close 3,
     Open ''in.txt'' [O_RDONLY] [],
     Dup2 4 0, Close 4,
     Open ''out.txt'' [O_CREAT, O_WRONLY, O_TRUNC] [S_IRUSR, S_IWUSR, S_IRGRP, S_IWGRP, S_IROTH],
     Dup2 5 1, Close 5])"
  using apply_file_redirects_order [of "\<lambda>n. (int n + 3, [])"
      "\<lparr>argv = [0 \<mapsto> ''sort''], redirect_input_filename = Some ''in.txt'',
        redirect_output_filename = Some ''out.txt'', redirect_error_filename = Some ''err.txt''\<rparr>"]
  by (simp add: apply_file_redirects_unfold redirects_done_def redirect_block_simps
      STDIN_FILENO_def STDOUT_FILENO_def STDERR_FILENO_def)

text \<open>
  C10. A failed open does not end the applier. Every file that is set is opened, in order,
  whichever opens fail; each failed open is followed by one diagnostic for its file; and
  when at least one open failed the applier ends with the three calls that discard the
  standard descriptors, made after all the opens, and returns
  \<^verbatim>\<open>FILE_REDIRECTION_ERROR\<close>. With no failed open it returns \<^verbatim>\<open>SUCCESS\<close>.
\<close>

theorem apply_file_redirects_after_failure:
  "filter is_diagnostic (snd (apply_file_redirects sys p)) =
     map (\<lambda>k. WriteStderr (print_file_redirection_error_str (redirect_files p ! k) (snd (sys k))))
       (filter (\<lambda>k. fst (sys k) < 0) [0..<length (redirect_files p)])
   \<and> (if \<exists>k<length (redirect_files p). fst (sys k) < 0
      then fst (apply_file_redirects sys p) = FILE_REDIRECTION_ERROR \<and>
           (\<exists>body. snd (apply_file_redirects sys p) = body @ [Dup2 0 0, Dup2 1 0, Dup2 2 0] \<and>
              opened_files body = redirect_files p)
      else fst (apply_file_redirects sys p) = SUCCESS \<and>
           opened_files (snd (apply_file_redirects sys p)) = redirect_files p)"
proof -
  have ex: "(\<exists>k<length (redirect_files p). fst (sys k) < 0) \<longleftrightarrow>
      rstatus (redirects_done sys p) = - 1"
    unfolding redirects_done_rstatus by (auto simp: filter_empty_conv)
  show ?thesis
    unfolding ex
    using redirects_done_diagnostics [of sys p] redirects_done_files [of sys p]
    by (simp add: apply_file_redirects_unfold)
qed

theorem apply_file_redirects_after_failure_witness:
  "apply_file_redirects (\<lambda>n. if n = 0 then (- 1, ''Permission denied'') else (3, []))
      \<lparr>argv = [0 \<mapsto> ''sort''], redirect_input_filename = Some ''in.txt'',
        redirect_output_filename = Some ''out.txt'', redirect_error_filename = None\<rparr> =
   (FILE_REDIRECTION_ERROR,
    [Open ''in.txt'' [O_RDONLY] [],
     WriteStderr (''-yash: in.txt: No such file or directory: Permission denied'' @ [CHR 0x0A]),
     Dup2 (- 1) 0, Close (- 1),
     Open ''out.txt'' [O_CREAT, O_WRONLY, O_TRUNC] [S_IRUSR, S_IWUSR, S_IRGRP, S_IWGRP, S_IROTH],
     Dup2 3 1, Close 3,
     Dup2 0 0, Dup2 1 0, Dup2 2 0])"
  using apply_file_redirects_after_failure
    [of "\<lambda>n. if n = 0 then (- 1, ''Permission denied'') else (3, [])"
      "\<lparr>argv = [0 \<mapsto> ''sort''], redirect_input_filename = Some ''in.txt'',
        redirect_output_filename = Some ''out.txt'', redirect_error_filename = None\<rparr>"]
  by (simp add: apply_file_redirects_unfold redirects_done_def redirect_block_simps
      print_file_redirection_error_str_def perror_def STDIN_FILENO_def STDOUT_FILENO_def)

subsection \<open>The parser\<close>

lemmas token_defs = INPUT_REDIRECT_def OUTPUT_REDIRECT_def ERROR_REDIRECT_def PIPE_def
  SEND_TO_BACKGROUND_def

lemmas message_defs = input_redirect_message_def output_redirect_message_def
  error_redirect_message_def pipe_message_def background_message_def

lemma loop_end:
  "\<not> ind < length toks \<Longrightarrow> process_input_loop toks ind ai cs p job = Inr j' \<Longrightarrow>
     background j' = background job"
  by (auto simp: process_input_loop.simps [of toks ind] split: if_splits)

lemma loop_step_redirect:
  assumes "process_input_loop toks ind ai cs p job = Inr j'" "ind < length toks"
    "is_redirect (toks ! ind)"
  shows "ind + 1 < length toks \<and>
         (\<exists>ai' p'. process_input_loop toks (ind + 2) ai' cs p' job = Inr j')"
  using assms
  by (auto simp: process_input_loop.simps [of toks ind] is_redirect_def token_defs
      split: if_splits)

lemma loop_step_background:
  assumes "process_input_loop toks ind ai cs p job = Inr j'" "ind < length toks"
    "toks ! ind = SEND_TO_BACKGROUND"
  shows "ind \<noteq> 0 \<and> ind + 1 = length toks \<and> background j' = 1"
proof -
  from assms have a: "ind \<noteq> 0 \<and> ind + 1 = length toks"
    and b: "process_input_loop toks (ind + 1) (ai + 1) cs p (job\<lparr>background := 1\<rparr>) = Inr j'"
    by (auto simp: process_input_loop.simps [of toks ind] token_defs split: if_splits)
  from a b loop_end [of "ind + 1" toks "ai + 1" cs p "job\<lparr>background := 1\<rparr>" j']
  show ?thesis by simp
qed

lemma loop_step_other:
  assumes "process_input_loop toks ind ai cs p job = Inr j'" "ind < length toks"
    "\<not> is_redirect (toks ! ind)" "toks ! ind \<noteq> SEND_TO_BACKGROUND"
  shows "\<exists>ai' cs' p' job'. process_input_loop toks (ind + 1) ai' cs' p' job' = Inr j' \<and>
           background job' = background job"
proof -
  have bg: "\<And>x. background (job\<lparr>first_process := x\<rparr>) = background job" by simp
  from assms show ?thesis
    unfolding process_input_loop.simps [of toks ind] is_redirect_def
    by (simp split: if_splits) (use bg in blast)+
qed

lemma background_not_redirect: "\<not> is_redirect SEND_TO_BACKGROUND"
  by (simp add: is_redirect_def token_defs)

lemma loop_background_position:
  "process_input_loop toks ind ai cs p job = Inr j' \<Longrightarrow> \<not> filename_operand toks ind \<Longrightarrow>
   ind \<le> i \<Longrightarrow> i < length toks \<Longrightarrow> toks ! i = SEND_TO_BACKGROUND \<Longrightarrow>
   \<not> filename_operand toks i \<Longrightarrow> i \<noteq> 0 \<and> i + 1 = length toks"
proof (induction "length toks - ind" arbitrary: ind ai cs p job rule: less_induct)
  case less
  from less.prems have lt: "ind < length toks" by simp
  show ?case
  proof (cases "is_redirect (toks ! ind)")
    case True
    from loop_step_redirect [OF less.prems(1) lt True]
    obtain ai' p' where nxt: "ind + 1 < length toks"
      and run: "process_input_loop toks (ind + 2) ai' cs p' job = Inr j'" by blast
    from True less.prems(2) have op: "filename_operand toks (Suc ind)"
      "\<not> filename_operand toks (Suc (Suc ind))" by simp_all
    from True less.prems(5) background_not_redirect have "i \<noteq> ind" by auto
    moreover from op(1) less.prems(6) have "i \<noteq> Suc ind" by auto
    ultimately have ge: "ind + 2 \<le> i" using less.prems(3) by simp
    have "length toks - (ind + 2) < length toks - ind" using lt by simp
    from less.hyps [OF this run _ ge less.prems(4,5,6)] op(2) show ?thesis by simp
  next
    case False
    show ?thesis
    proof (cases "toks ! ind = SEND_TO_BACKGROUND")
      case True
      from loop_step_background [OF less.prems(1) lt True] less.prems(3,4)
      show ?thesis by simp
    next
      case other: False
      from loop_step_other [OF less.prems(1) lt False other]
      obtain ai' cs' p' job' where
        run: "process_input_loop toks (ind + 1) ai' cs' p' job' = Inr j'" by blast
      from other less.prems(5) have "i \<noteq> ind" by auto
      with less.prems(3) have ge: "ind + 1 \<le> i" by simp
      from False have op: "\<not> filename_operand toks (ind + 1)" by simp
      have "length toks - (ind + 1) < length toks - ind" using lt by simp
      from less.hyps [OF this run op ge less.prems(4,5,6)] show ?thesis .
    qed
  qed
qed

lemma loop_background_flag:
  "process_input_loop toks ind ai cs p job = Inr j' \<Longrightarrow> \<not> filename_operand toks ind \<Longrightarrow>
   background j' =
     (if \<exists>i. ind \<le> i \<and> i < length toks \<and> toks ! i = SEND_TO_BACKGROUND \<and>
              \<not> filename_operand toks i
      then 1 else background job)"
proof -
  define P where "P k \<longleftrightarrow> (\<exists>i. k \<le> i \<and> i < length toks \<and> toks ! i = SEND_TO_BACKGROUND \<and>
              \<not> filename_operand toks i)" for k
  have "process_input_loop toks ind ai cs p job = Inr j' \<Longrightarrow> \<not> filename_operand toks ind \<Longrightarrow>
     background j' = (if P ind then 1 else background job)"
  proof (induction "length toks - ind" arbitrary: ind ai cs p job rule: less_induct)
    case less
    show ?case
    proof (cases "ind < length toks")
      case False
      then have "\<not> P ind" by (auto simp: P_def)
      with loop_end [OF False less.prems(1)] show ?thesis by simp
    next
      case lt: True
      show ?thesis
      proof (cases "is_redirect (toks ! ind)")
        case True
        from loop_step_redirect [OF less.prems(1) lt True]
        obtain ai' p' where
          run: "process_input_loop toks (ind + 2) ai' cs p' job = Inr j'" by blast
        from True less.prems(2) have op: "filename_operand toks (Suc ind)"
          "\<not> filename_operand toks (Suc (Suc ind))" by simp_all
        have "P ind \<longleftrightarrow> P (ind + 2)"
        proof
          assume "P ind"
          then obtain i where i: "ind \<le> i" "i < length toks" "toks ! i = SEND_TO_BACKGROUND"
            "\<not> filename_operand toks i" unfolding P_def by blast
          from True i(3) background_not_redirect have "i \<noteq> ind" by auto
          moreover from op(1) i(4) have "i \<noteq> Suc ind" by auto
          ultimately have "ind + 2 \<le> i" using i(1) by simp
          with i show "P (ind + 2)" unfolding P_def by blast
        next
          assume "P (ind + 2)"
          then obtain i where i: "ind + 2 \<le> i" "i < length toks"
            "toks ! i = SEND_TO_BACKGROUND" "\<not> filename_operand toks i"
            unfolding P_def by blast
          then have "ind \<le> i" by simp
          with i show "P ind" unfolding P_def by blast
        qed
        moreover have "length toks - (ind + 2) < length toks - ind" using lt by simp
        from less.hyps [OF this run] op(2)
        have "background j' = (if P (ind + 2) then 1 else background job)" by simp
        ultimately show ?thesis by simp
      next
        case False
        show ?thesis
        proof (cases "toks ! ind = SEND_TO_BACKGROUND")
          case True
          with lt less.prems(2) have "P ind" unfolding P_def by blast
          with loop_step_background [OF less.prems(1) lt True] show ?thesis by simp
        next
          case other: False
          from loop_step_other [OF less.prems(1) lt False other]
          obtain ai' cs' p' job' where
            run: "process_input_loop toks (ind + 1) ai' cs' p' job' = Inr j'"
            and bg: "background job' = background job" by blast
          from False have op: "\<not> filename_operand toks (ind + 1)" by simp
          have "P ind \<longleftrightarrow> P (ind + 1)"
          proof
            assume "P ind"
            then obtain i where i: "ind \<le> i" "i < length toks"
              "toks ! i = SEND_TO_BACKGROUND" "\<not> filename_operand toks i"
              unfolding P_def by blast
            from other i(3) have "i \<noteq> ind" by auto
            with i(1) have "ind + 1 \<le> i" by simp
            with i show "P (ind + 1)" unfolding P_def by blast
          next
            assume "P (ind + 1)"
            then obtain i where i: "ind + 1 \<le> i" "i < length toks"
              "toks ! i = SEND_TO_BACKGROUND" "\<not> filename_operand toks i"
              unfolding P_def by blast
            then have "ind \<le> i" by simp
            with i show "P ind" unfolding P_def by blast
          qed
          moreover have "length toks - (ind + 1) < length toks - ind" using lt by simp
          from less.hyps [OF this run op]
          have "background j' = (if P (ind + 1) then 1 else background job')" .
          ultimately show ?thesis using bg by simp
        qed
      qed
    qed
  qed
  then show "process_input_loop toks ind ai cs p job = Inr j' \<Longrightarrow>
      \<not> filename_operand toks ind \<Longrightarrow> ?thesis"
    unfolding P_def .
qed

lemma loop_background_error:
  "process_input_loop toks ind ai cs p job = Inl (ParseError background_message) \<Longrightarrow>
   \<not> filename_operand toks ind \<Longrightarrow>
   \<exists>i. ind \<le> i \<and> i < length toks \<and> toks ! i = SEND_TO_BACKGROUND \<and>
       \<not> filename_operand toks i \<and> (i = 0 \<or> i + 1 < length toks)"
proof (induction toks ind ai cs p job rule: process_input_loop.induct)
  case (1 toks ind ai cs p job)
  let ?Q = "\<lambda>k. \<exists>i. k \<le> i \<and> i < length toks \<and> toks ! i = SEND_TO_BACKGROUND \<and>
       \<not> filename_operand toks i \<and> (i = 0 \<or> i + 1 < length toks)"
  have up2: "?Q (ind + 1 + 1) \<Longrightarrow> ?Q ind" by (metis add_leD1)
  have up1: "?Q (ind + 1) \<Longrightarrow> ?Q ind" by (metis add_leD1)
  from "1.prems"(1) have lt: "ind < length toks"
    by (auto simp: process_input_loop.simps [of toks ind] split: if_splits)
  show ?case
  proof (cases "is_redirect (toks ! ind)")
    case True
    with "1.prems"(2) have op: "\<not> filename_operand toks (ind + 1 + 1)" by simp
    from True "1.prems"(1) lt "1.IH"(1,2,3) op have "?Q (ind + 1 + 1)"
      unfolding process_input_loop.simps [of toks ind] is_redirect_def
      by (simp add: message_defs split: if_splits)
    then show ?thesis by (rule up2)
  next
    case False
    then have op: "\<not> filename_operand toks (ind + 1)" by simp
    show ?thesis
    proof (cases "toks ! ind = SEND_TO_BACKGROUND")
      case True
      from True "1.prems"(1) lt have "ind = 0 \<or> ind + 1 < length toks"
        unfolding process_input_loop.simps [of toks ind]
        by (auto simp add: token_defs process_input_loop.simps [of toks "Suc ind"]
            split: if_splits)
      with True lt "1.prems"(2) show ?thesis by blast
    next
      case other: False
      from False other "1.prems"(1) lt "1.IH"(4,6) op have "?Q (ind + 1)"
        unfolding process_input_loop.simps [of toks ind] is_redirect_def
        by (simp add: message_defs split: if_splits)
      then show ?thesis by (rule up1)
    qed
  qed
qed

lemma loop_first_process:
  "process_input_loop toks ind ai cs p job = Inr j' \<Longrightarrow>
   (cs \<longrightarrow> first_process job \<noteq> None) \<Longrightarrow> first_process j' \<noteq> None"
proof (induction toks ind ai cs p job rule: process_input_loop.induct)
  case (1 toks ind ai cs p job)
  from "1.prems" "1.IH" show ?case
    unfolding process_input_loop.simps [of toks ind]
    by (auto split: if_splits)
qed

lemma process_input_first_process:
  "process_input toks job = Inr j' \<Longrightarrow> first_process j' \<noteq> None"
  using loop_first_process [of toks 0 0 False zero_process job j']
  by (simp add: process_input_def)

text \<open>
  C1. A second pipe symbol that stands between two words is not rejected. For the five
  tokens \<^verbatim>\<open>a | b | c\<close> the parser succeeds; the process built for \<^verbatim>\<open>b\<close> takes the place
  of the one built for \<^verbatim>\<open>a\<close> as first process, and \<^verbatim>\<open>c\<close> becomes the second.
\<close>

theorem process_input_second_pipe:
  "process_input [''a'', ''|'', ''b'', ''|'', ''c''] zero_job =
     Inr \<lparr>pgid = 0, command = [], job_number = 0, background = 0, status = RUNNING,
       first_process = Some \<lparr>argv = [0 \<mapsto> ''b''], redirect_input_filename = None,
         redirect_output_filename = None, redirect_error_filename = None\<rparr>,
       second_process = Some \<lparr>argv = [0 \<mapsto> ''c''], redirect_input_filename = None,
         redirect_output_filename = None, redirect_error_filename = None\<rparr>,
       next_job = None\<rparr>"
  by (simp add: process_input_def process_input_loop.simps token_defs MAX_ARGS_def
      zero_process_def zero_job_def)

lemma loop_append_background:
  "process_input_loop toks ind ai cs p job = Inr j \<Longrightarrow> background j = 0 \<Longrightarrow>
   ind \<le> length toks \<Longrightarrow> toks \<noteq> [] \<Longrightarrow>
   process_input_loop (toks @ [SEND_TO_BACKGROUND]) ind ai cs p job =
     Inr (j\<lparr>background := 1\<rparr>)"
proof (induction toks ind ai cs p job rule: process_input_loop.induct)
  case (1 toks ind ai cs p job)
  let ?ext = "toks @ [SEND_TO_BACKGROUND]"
  show ?case
  proof (cases "ind < length toks")
    case False
    with "1.prems"(3) have ind: "ind = length toks" by simp
    with "1.prems"(4) have pos: "ind \<noteq> 0" by simp
    from "1.prems"(1) False have j: "j = (if \<not> cs then job\<lparr>first_process := Some p\<rparr>
        else job\<lparr>second_process := Some p\<rparr>)"
      by (auto simp: process_input_loop.simps [of toks ind] split: if_splits)
    have "process_input_loop ?ext ind ai cs p job =
        process_input_loop ?ext (ind + 1) (ai + 1) cs p (job\<lparr>background := 1\<rparr>)"
      using ind pos
      by (subst process_input_loop.simps) (simp add: token_defs)
    also have "\<dots> = Inr (j\<lparr>background := 1\<rparr>)"
      using ind j by (subst process_input_loop.simps) simp
    finally show ?thesis .
  next
    case lt: True
    then have nth: "?ext ! ind = toks ! ind" by (simp add: nth_append)
    show ?thesis
    proof (cases "toks ! ind = SEND_TO_BACKGROUND")
      case True
      from loop_step_background [OF "1.prems"(1) lt True] "1.prems"(2) show ?thesis by simp
    next
      case nb: False
      have nth1: "ind + 1 \<noteq> length toks \<Longrightarrow> ?ext ! (ind + 1) = toks ! (ind + 1)"
        using lt by (simp add: nth_append)
      from "1.prems"(1) lt nb "1.IH" "1.prems"(2,4) nth1 show ?thesis
        unfolding process_input_loop.simps [of toks ind]
          process_input_loop.simps [of ?ext ind] nth
        by (auto simp: token_defs split: if_splits)
    qed
  qed
qed


lemma process_input_append_background:
  assumes "process_input toks job = Inr j" and "background j = 0" and "toks \<noteq> []"
  shows "process_input (toks @ [SEND_TO_BACKGROUND]) job = Inr (j\<lparr>background := 1\<rparr>)"
  using assms loop_append_background [of toks 0 0 False zero_process job j]
  by (simp add: process_input_def)

text \<open>
  C6, as the claim states it, fails: an ampersand that follows a redirection operator is
  taken as the file name. In \<^verbatim>\<open>a > & b\<close> it is not the last token and the parser
  succeeds; in \<^verbatim>\<open>a > &\<close> it is the last of three tokens and the background flag stays 0.
\<close>

theorem process_input_background_counterexample:
  "process_input [''a'', ''>'', ''&'', ''b''] zero_job =
     Inr \<lparr>pgid = 0, command = [], job_number = 0, background = 0, status = RUNNING,
       first_process = Some \<lparr>argv = [0 \<mapsto> ''a'', 2 \<mapsto> ''b''], redirect_input_filename = None,
         redirect_output_filename = Some ''&'', redirect_error_filename = None\<rparr>,
       second_process = None, next_job = None\<rparr>
   \<and> process_input [''a'', ''>'', ''&''] zero_job =
     Inr \<lparr>pgid = 0, command = [], job_number = 0, background = 0, status = RUNNING,
       first_process = Some \<lparr>argv = [0 \<mapsto> ''a''], redirect_input_filename = None,
         redirect_output_filename = Some ''&'', redirect_error_filename = None\<rparr>,
       second_process = None, next_job = None\<rparr>"
  by (simp add: process_input_def process_input_loop.simps token_defs MAX_ARGS_def
      zero_process_def zero_job_def)

text \<open>
  C6, amended. Take the ampersands that are not the file name of a redirection. The parser
  reports the ampersand error only if one of them is the first token or is not the last
  token. Whenever the parser succeeds, every one of them is the last token and not the
  first, so a sequence with one that is first or not last yields no job; and the job of a
  successful parse has its background flag set exactly when the last token is such an
  ampersand. When a sequence of tokens parses into a job with the flag 0, the sequence with
  an ampersand added at its end parses into the same job with the flag set.
\<close>

theorem process_input_background:
  "(process_input toks job = Inl (ParseError background_message) \<longrightarrow>
      (\<exists>i<length toks. toks ! i = SEND_TO_BACKGROUND \<and> \<not> filename_operand toks i \<and>
          (i = 0 \<or> i + 1 < length toks)))
   \<and> (\<forall>j'. process_input toks job = Inr j' \<longrightarrow>
        (\<forall>i<length toks. toks ! i = SEND_TO_BACKGROUND \<and> \<not> filename_operand toks i \<longrightarrow>
            i \<noteq> 0 \<and> i + 1 = length toks)
        \<and> (background job = 0 \<longrightarrow>
            (background j' = 1 \<longleftrightarrow>
               2 \<le> length toks \<and> toks ! (length toks - 1) = SEND_TO_BACKGROUND \<and>
               \<not> filename_operand toks (length toks - 1))))
   \<and> (\<forall>j'. toks \<noteq> [] \<and> process_input toks job = Inr j' \<and> background j' = 0 \<longrightarrow>
        process_input (toks @ [SEND_TO_BACKGROUND]) job = Inr (j'\<lparr>background := 1\<rparr>))"
proof (intro conjI impI allI)
  fix j'
  assume "toks \<noteq> [] \<and> process_input toks job = Inr j' \<and> background j' = 0"
  then show "process_input (toks @ [SEND_TO_BACKGROUND]) job = Inr (j'\<lparr>background := 1\<rparr>)"
    by (simp add: process_input_append_background)
next
  assume "process_input toks job = Inl (ParseError background_message)"
  from loop_background_error [OF this [unfolded process_input_def]]
  show "\<exists>i<length toks. toks ! i = SEND_TO_BACKGROUND \<and> \<not> filename_operand toks i \<and>
          (i = 0 \<or> i + 1 < length toks)"
    by auto
next
  fix j' i
  assume run: "process_input toks job = Inr j'" and "i < length toks"
    and "toks ! i = SEND_TO_BACKGROUND \<and> \<not> filename_operand toks i"
  with loop_background_position [OF run [unfolded process_input_def], of i]
  show "i \<noteq> 0" and "i + 1 = length toks" by simp_all
next
  fix j'
  assume run: "process_input toks job = Inr j'" and zero: "background job = 0"
  define Q where "Q \<longleftrightarrow> (\<exists>i. 0 \<le> i \<and> i < length toks \<and> toks ! i = SEND_TO_BACKGROUND \<and>
              \<not> filename_operand toks i)"
  have "background j' = (if Q then 1 else background job)"
    unfolding Q_def
    by (rule loop_background_flag [OF run [unfolded process_input_def]]) simp
  with zero have flag: "background j' = (if Q then 1 else 0)" by simp
  have "Q \<longleftrightarrow> 2 \<le> length toks \<and> toks ! (length toks - 1) = SEND_TO_BACKGROUND \<and>
               \<not> filename_operand toks (length toks - 1)"
  proof
    assume Q
    then obtain i where i: "i < length toks" "toks ! i = SEND_TO_BACKGROUND"
      "\<not> filename_operand toks i" unfolding Q_def by blast
    from loop_background_position [OF run [unfolded process_input_def] _ _ i]
    have "i \<noteq> 0 \<and> i + 1 = length toks" by simp
    then have "2 \<le> length toks" "i = length toks - 1" by auto
    with i show "2 \<le> length toks \<and> toks ! (length toks - 1) = SEND_TO_BACKGROUND \<and>
               \<not> filename_operand toks (length toks - 1)" by simp
  next
    assume a: "2 \<le> length toks \<and> toks ! (length toks - 1) = SEND_TO_BACKGROUND \<and>
               \<not> filename_operand toks (length toks - 1)"
    then have "2 \<le> length toks" by blast
    then have "length toks - 1 < length toks" by arith
    with a show Q unfolding Q_def by blast
  qed
  with flag show "background j' = 1 \<longleftrightarrow>
               2 \<le> length toks \<and> toks ! (length toks - 1) = SEND_TO_BACKGROUND \<and>
               \<not> filename_operand toks (length toks - 1)"
    by simp
qed

theorem process_input_background_witness:
  "process_input [''sleep'', ''30'', ''&''] zero_job =
     Inr \<lparr>pgid = 0, command = [], job_number = 0, background = 1, status = RUNNING,
       first_process = Some \<lparr>argv = [0 \<mapsto> ''sleep'', 1 \<mapsto> ''30''], redirect_input_filename = None,
         redirect_output_filename = None, redirect_error_filename = None\<rparr>,
       second_process = None, next_job = None\<rparr>
   \<and> background zero_job = 0
   \<and> \<not> filename_operand [''sleep'', ''30'', ''&''] 2
   \<and> process_input [''sleep'', ''&'', ''30''] zero_job = Inl (ParseError background_message)
   \<and> process_input [''sleep'', ''30''] zero_job =
     Inr \<lparr>pgid = 0, command = [], job_number = 0, background = 0, status = RUNNING,
       first_process = Some \<lparr>argv = [0 \<mapsto> ''sleep'', 1 \<mapsto> ''30''], redirect_input_filename = None,
         redirect_output_filename = None, redirect_error_filename = None\<rparr>,
       second_process = None, next_job = None\<rparr>"
  using process_input_background [of "[''sleep'', ''30'', ''&'']" zero_job]
    process_input_background [of "[''sleep'', ''&'', ''30'']" zero_job]
    process_input_background [of "[''sleep'', ''30'']" zero_job]
  by (simp add: process_input_def process_input_loop.simps token_defs MAX_ARGS_def
      zero_process_def zero_job_def is_redirect_def numeral_2_eq_2)

subsection \<open>The command string\<close>

lemma has_bg_suffix_sound:
  "has_bg_suffix cmd = Some b \<Longrightarrow> b \<longleftrightarrow> suffix '' &'' cmd"
proof (cases cmd rule: rev_cases)
  case Nil
  assume "has_bg_suffix cmd = Some b"
  with Nil show ?thesis by (simp add: has_bg_suffix_def)
next
  case (snoc ys y)
  assume run: "has_bg_suffix cmd = Some b"
  show ?thesis
  proof (cases ys rule: rev_cases)
    case Nil
    with snoc run show ?thesis
      by (auto simp: has_bg_suffix_def suffix_def split: if_splits)
  next
    case (snoc zs z)
    with \<open>cmd = ys @ [y]\<close> have cmd: "cmd = zs @ [z, y]" by simp
    have "nat (int (length cmd) - 2) = length zs" "nat (int (length cmd) - 1) = Suc (length zs)"
      by (simp_all add: cmd)
    with run cmd show ?thesis
      by (auto simp: has_bg_suffix_def Let_def suffix_def nth_append split: if_splits)
  qed
qed

lemma has_bg_suffix_defined:
  "cmd \<noteq> [] \<Longrightarrow> cmd \<noteq> ''&'' \<Longrightarrow> has_bg_suffix cmd = Some (suffix '' &'' cmd)"
proof -
  assume ne: "cmd \<noteq> []" "cmd \<noteq> ''&''"
  have "\<exists>b. has_bg_suffix cmd = Some b"
  proof (cases "length cmd = 1")
    case True
    then obtain c where "cmd = [c]" by (cases cmd) auto
    with ne show ?thesis by (auto simp: has_bg_suffix_def)
  next
    case False
    with ne have "length cmd \<noteq> 0" "length cmd \<noteq> 1" by simp_all
    then have "2 \<le> length cmd" by arith
    then show ?thesis by (auto simp: has_bg_suffix_def Let_def)
  qed
  then obtain b where b: "has_bg_suffix cmd = Some b" by blast
  with has_bg_suffix_sound [OF b] show ?thesis by simp
qed

lemma update_job_command_str_fg:
  assumes "update_job_command_str behind j 0 = Some j'"
  shows "j' = j\<lparr>command := (if suffix '' &'' (command j)
                          then take (length (command j) - 2) (command j) else command j)\<rparr>"
proof -
  from assms obtain b where b: "has_bg_suffix (command j) = Some b"
    by (auto simp: update_job_command_str_def bind_eq_Some_conv)
  from has_bg_suffix_sound [OF b] assms b show ?thesis
    by (auto simp: update_job_command_str_def)
qed

lemma update_job_command_str_round_trip_terminated:
  assumes "command job \<noteq> []" and "command job \<noteq> ''&''"
    and "\<not> suffix '' &'' (command job)"
  shows "update_job_command_str [] job 1 = Some (job\<lparr>command := command job @ '' &''\<rparr>)
       \<and> update_job_command_str behind' (job\<lparr>command := command job @ '' &''\<rparr>) 0 = Some job"
proof -
  have "has_bg_suffix (command job @ '' &'') = Some True"
    by (simp add: has_bg_suffix_defined suffix_def)
  with assms show ?thesis
    by (simp add: update_job_command_str_def has_bg_suffix_defined bg_suffix_def)
qed

lemma update_job_command_str_round_trip_unterminated:
  assumes "command job \<noteq> []" and "command job \<noteq> ''&''"
    and "\<not> suffix '' &'' (command job)" and "behind \<noteq> []"
    and bg: "update_job_command_str behind job 1 = Some j1"
    and fg: "update_job_command_str behind' j1 0 = Some j2"
  shows "length (command j2) > length (command job)"
proof -
  from assms(1-3) bg have j1: "command j1 = command job @ '' &'' @ behind"
    by (auto simp: update_job_command_str_def has_bg_suffix_defined bg_suffix_def)
  from update_job_command_str_fg [OF fg]
  have "length (command j2) \<ge> length (command j1) - 2" by (simp split: if_splits)
  with j1 assms(4) show ?thesis by (cases behind) simp_all
qed

text \<open>
  C3. The job of \<^verbatim>\<open>sleep 30\<close> is sent to the background and brought back, with two
  bytes other than NUL lying behind \<^verbatim>\<open>bg_suffix\<close>. The update towards the background
  appends the suffix and these two bytes; the update towards the foreground then finds no
  \<^verbatim>\<open> &\<close> at the end and leaves the string as it is: the command is not restored.
\<close>

theorem update_job_command_str_round_trip_fails:
  "update_job_command_str [CHR 0xD0, CHR 0x55] (zero_job\<lparr>command := ''sleep 30''\<rparr>) 1 =
     Some (zero_job\<lparr>command := ''sleep 30 &'' @ [CHR 0xD0, CHR 0x55]\<rparr>)
   \<and> update_job_command_str [CHR 0xD0, CHR 0x55]
       (zero_job\<lparr>command := ''sleep 30 &'' @ [CHR 0xD0, CHR 0x55]\<rparr>) 0 =
     Some (zero_job\<lparr>command := ''sleep 30 &'' @ [CHR 0xD0, CHR 0x55]\<rparr>)"
  by (simp add: update_job_command_str_def has_bg_suffix_def bg_suffix_def)

subsection \<open>Lists in allocated memory\<close>

lemma job_path_unique:
  "job_path h p as \<Longrightarrow> job_path h p bs \<Longrightarrow> as = bs"
proof (induction as arbitrary: p bs)
  case Nil
  then show ?case by (cases bs) simp_all
next
  case (Cons a as)
  then show ?case by (cases bs) (auto split: option.splits)
qed

lemma job_path_suffix:
  "job_path h p (xs @ a # ys) \<Longrightarrow> job_path h (Some a) (a # ys)"
proof (induction xs arbitrary: p)
  case Nil
  then show ?case by simp
next
  case (Cons x xs)
  from Cons.prems obtain j :: job_t where "job_path h (next_job j) (xs @ a # ys)"
    by (auto split: option.splits)
  then show ?case by (rule Cons.IH)
qed

lemma job_path_head_not_later:
  assumes "job_path h p (a # as)"
  shows "a \<notin> set as"
proof
  assume "a \<in> set as"
  then obtain xs ys where as: "as = xs @ a # ys" by (auto simp: in_set_conv_decomp)
  with assms have "job_path h p ((a # xs) @ a # ys)" by simp
  then have "job_path h (Some a) (a # ys)" by (rule job_path_suffix)
  moreover from assms have "job_path h (Some a) (a # as)" by simp
  ultimately have "a # ys = a # as" by (rule job_path_unique)
  with as show False by simp
qed

lemma job_path_distinct: "job_path h p as \<Longrightarrow> distinct as"
proof (induction as arbitrary: p)
  case Nil
  then show ?case by simp
next
  case (Cons a as)
  from Cons.prems have "a \<notin> set as" by (rule job_path_head_not_later)
  moreover from Cons.prems Cons.IH have "distinct as" by (auto split: option.splits)
  ultimately show ?case by simp
qed

lemma job_path_update_other:
  "a \<notin> set as \<Longrightarrow> job_path (h(a := v)) p as = job_path h p as"
  by (induction as arbitrary: p) (auto split: option.splits)

lemma find_job_loop_absent:
  "job_path h p as \<Longrightarrow> \<forall>a\<in>set as. \<forall>j. h a = Some j \<longrightarrow> pgid j \<noteq> pg \<Longrightarrow>
     find_job_loop h p pg = Some None"
proof (induction as arbitrary: p)
  case Nil
  then show ?case by (simp add: find_job_loop.simps)
next
  case (Cons a as)
  from Cons.prems(1) obtain j where p: "p = Some a" and j: "h a = Some j"
    and rest: "job_path h (next_job j) as" by (auto split: option.splits)
  from Cons.prems(2) j have "pgid j \<noteq> pg" by simp
  moreover from Cons.IH [OF rest] Cons.prems(2)
  have "find_job_loop h (next_job j) pg = Some None" by simp
  ultimately show ?case by (subst find_job_loop.simps) (simp add: p j)
qed

lemma find_next_job_to_fg_loop_path:
  "job_path (heap s) p as \<Longrightarrow>
     find_next_job_to_fg_loop (heap s) p acc =
       Some (case filter (not_done s) as of [] \<Rightarrow> acc | x # xs \<Rightarrow> Some (last (x # xs)))"
proof (induction as arbitrary: p acc)
  case Nil
  then show ?case by (simp add: find_next_job_to_fg_loop.simps)
next
  case (Cons a as)
  from Cons.prems obtain j where p: "p = Some a" and j: "heap s a = Some j"
    and rest: "job_path (heap s) (next_job j) as" by (auto split: option.splits)
  have nd: "not_done s a \<longleftrightarrow> status j \<noteq> DONE" by (simp add: not_done_def j)
  show ?case
    by (subst find_next_job_to_fg_loop.simps)
       (simp add: p j Cons.IH [OF rest] nd split: list.splits)
qed

lemma free_job_table_loop_path:
  "job_path (heap s) p as \<Longrightarrow>
     free_job_table_loop s p = Some (s\<lparr>heap := (\<lambda>a. if a \<in> set as then None else heap s a)\<rparr>)"
proof (induction as arbitrary: s p)
  case Nil
  then show ?case by (simp add: free_job_table_loop.simps)
next
  case (Cons a as)
  from Cons.prems obtain j where p: "p = Some a" and j: "heap s a = Some j"
    and rest: "job_path (heap s) (next_job j) as" by (auto split: option.splits)
  from Cons.prems have "a \<notin> set as" by (rule job_path_head_not_later)
  with rest have "job_path (heap (free_job a s)) (next_job j) as"
    by (simp add: free_job_def job_path_update_other)
  from Cons.IH [OF this]
  have "free_job_table_loop (free_job a s) (next_job j) =
      Some (s\<lparr>heap := (\<lambda>x. if x \<in> set (a # as) then None else heap s x)\<rparr>)"
    by (simp add: free_job_def fun_eq_iff)
  then show ?case by (subst free_job_table_loop.simps) (simp add: p j)
qed

subsection \<open>Children the table does not know\<close>

text \<open>
  C9. Let the job table be a list. For a pid greater than 0 that is the pgid of no job in
  it, \<^verbatim>\<open>update_job_status\<close> returns 1 and leaves the state of the shell as it was, and
  the draining loop goes on with the next answer of \<^verbatim>\<open>waitpid\<close> as if this one had not
  been there.
\<close>

theorem update_job_status_unknown_pid:
  assumes "job_table s as" and "0 < pid"
    and "\<forall>a\<in>set as. \<forall>j. heap s a = Some j \<longrightarrow> pgid j \<noteq> pid"
  shows "update_job_status wstatus pid s = Some (1, s)
       \<and> update_job_table_statuses ((wstatus, pid) # ws) s = update_job_table_statuses ws s"
proof -
  from assms(1,3) have "find_job pid s = Some None"
    unfolding job_table_def find_job_def by (rule find_job_loop_absent)
  with assms(2) have "update_job_status wstatus pid s = Some (1, s)"
    by (simp add: update_job_status_def)
  then show ?thesis by simp
qed

theorem update_job_status_unknown_pid_witness:
  "job_table example_table [1, 2]
   \<and> update_job_status 0 12 example_table = Some (1, example_table)
   \<and> update_job_table_statuses [(0, 12), (0, 0)] example_table = Some ([], example_table)"
  using update_job_status_unknown_pid [of example_table "[1, 2]" 12 0 "[(0, 0)]"]
  by (simp add: job_table_def example_table_def zero_job_def update_job_status_def)

subsection \<open>End of input\<close>

text \<open>
  C8. When \<^verbatim>\<open>readline\<close> returns \<^verbatim>\<open>NULL\<close>, and the drain at the top of the loop has
  ended with a job table that is a list, the shell frees every job of the table, touches
  no other memory, and exits with status 0.
\<close>

theorem main_turn_end_of_input:
  assumes "update_job_table_statuses ws s = Some (ws1, s1)" and "job_table s1 as"
  shows "main_turn handle ws None s =
           Some (Exit 0 (s1\<lparr>heap := (\<lambda>a. if a \<in> set as then None else heap s1 a)\<rparr>))"
proof -
  from assms(2) have "free_job_table s1 =
      Some (s1\<lparr>heap := (\<lambda>a. if a \<in> set as then None else heap s1 a)\<rparr>)"
    unfolding job_table_def free_job_table_def by (rule free_job_table_loop_path)
  with assms(1) show ?thesis by (simp add: main_turn_def EXIT_SUCCESS_def)
qed

theorem main_turn_end_of_input_witness:
  "update_job_table_statuses [(0, 0)] example_table = Some ([], example_table)
   \<and> job_table example_table [1, 2]
   \<and> main_turn (\<lambda>command_line ws s. Some s) [(0, 0)] None example_table =
       Some (Exit 0 (example_table\<lparr>heap := Map.empty\<rparr>))"
proof -
  have a: "update_job_table_statuses [(0, 0)] example_table = Some ([], example_table)"
    by (simp add: update_job_status_def)
  have b: "job_table example_table [1, 2]"
    by (simp add: job_table_def example_table_def zero_job_def)
  have "(\<lambda>a. if a \<in> set [1, 2] then None else heap example_table a) = Map.empty"
    by (auto simp: example_table_def fun_eq_iff)
  with main_turn_end_of_input [OF a b, of "\<lambda>command_line ws s. Some s"] a b
  show ?thesis by simp
qed

subsection \<open>Reconciling the status of a job of the table\<close>

lemma job_path_same_next:
  "h a = Some j \<Longrightarrow> next_job j' = next_job j \<Longrightarrow>
     job_path (h(a \<mapsto> j')) p as = job_path h p as"
  by (induction as arbitrary: p) (auto split: option.splits)

lemma job_path_last:
  "job_path h p (xs @ [a]) \<Longrightarrow> \<exists>j. h a = Some j \<and> next_job j = None"
  by (induction xs arbitrary: p) (auto split: option.splits)

lemma job_path_before_last:
  "job_path h p (xs @ [q, a]) \<Longrightarrow> \<exists>qj. h q = Some qj \<and> next_job qj = Some a"
  by (induction xs arbitrary: p) (auto split: option.splits)

lemma job_path_cut_last:
  assumes "job_path h p (xs @ [q, a])" and "h q = Some qj"
  shows "job_path (h(q \<mapsto> qj\<lparr>next_job := None\<rparr>)) p (xs @ [q])"
proof -
  from assms(1) have "distinct (xs @ [q, a])" by (rule job_path_distinct)
  then have "q \<notin> set xs" by simp
  with assms show ?thesis
  proof (induction xs arbitrary: p)
    case Nil
    then show ?case by simp
  next
    case (Cons x xs)
    from Cons.prems(1) obtain xj where p: "p = Some x" and xj: "h x = Some xj"
      and rest: "job_path h (next_job xj) (xs @ [q, a])" by (auto split: option.splits)
    from Cons.prems(3) have "x \<noteq> q" "q \<notin> set xs" by auto
    with Cons.IH [OF rest Cons.prems(2)] p xj show ?case by simp
  qed
qed

lemma find_job_loop_path:
  "job_path (heap s) p as \<Longrightarrow> find_job_loop (heap s) p pg = Some (find (has_pgid s pg) as)"
proof (induction as arbitrary: p)
  case Nil
  then show ?case by (simp add: find_job_loop.simps)
next
  case (Cons a as)
  from Cons.prems obtain j where p: "p = Some a" and j: "heap s a = Some j"
    and rest: "job_path (heap s) (next_job j) as" by (auto split: option.splits)
  have hp: "has_pgid s pg a \<longleftrightarrow> pgid j = pg" by (simp add: has_pgid_def j)
  show ?case
    by (subst find_job_loop.simps) (simp add: p j hp Cons.IH [OF rest])
qed

lemma find_most_recent_job_num_loop_path:
  "job_path h p as \<Longrightarrow>
     find_most_recent_job_num_loop h p r = Some (fold max (background_numbers h as) r)"
proof (induction as arbitrary: p r)
  case Nil
  then show ?case by (simp add: find_most_recent_job_num_loop.simps background_numbers_def)
next
  case (Cons a as)
  from Cons.prems obtain j where p: "p = Some a" and j: "h a = Some j"
    and rest: "job_path h (next_job j) as" by (auto split: option.splits)
  let ?r' = "if job_number j > r \<and> background j \<noteq> 0 then job_number j else r"
  have "background_numbers h (a # as) =
      (if background j \<noteq> 0 then [job_number j] else []) @ background_numbers h as"
    by (simp add: background_numbers_def j)
  moreover have "fold max (if background j \<noteq> 0 then [job_number j] else []) r = ?r'"
    by (auto simp: max_def)
  ultimately have "fold max (background_numbers h (a # as)) r =
      fold max (background_numbers h as) ?r'"
    by (simp only: fold_append o_apply)
  moreover have "find_most_recent_job_num_loop h p r =
      find_most_recent_job_num_loop h (next_job j) ?r'"
    by (subst find_most_recent_job_num_loop.simps) (simp add: p j)
  ultimately show ?case using Cons.IH [OF rest, of ?r'] by simp
qed

lemma find_most_recent_job_num_table:
  "job_table s as \<Longrightarrow>
     find_most_recent_job_num s = Some (Max (set (0 # background_numbers (heap s) as)))"
  using find_most_recent_job_num_loop_path [of "heap s" "job_list_head s" as 0]
  by (simp only: find_most_recent_job_num_def job_table_def Max.set_eq_fold)

lemma remove_job_loop_last:
  assumes "job_path (heap s) cur (xs @ [a])" and "\<forall>b\<in>set xs. \<not> has_pgid s pg b"
    and "has_pgid s pg a"
    and "\<forall>p. prev = Some p \<longrightarrow> heap s p \<noteq> None"
  shows "remove_job_loop s cur prev pg 0 =
     Some (1, case (if xs = [] then prev else Some (last xs)) of
                None \<Rightarrow> s\<lparr>job_list_head := None\<rparr>
              | Some p \<Rightarrow> s\<lparr>heap := (heap s)(p \<mapsto> (the (heap s p))\<lparr>next_job := None\<rparr>)\<rparr>)"
  using assms
proof (induction xs arbitrary: cur prev)
  case Nil
  from Nil.prems(1) obtain j where cur: "cur = Some a" and j: "heap s a = Some j"
    and nxt: "next_job j = None" by (auto split: option.splits)
  from Nil.prems(3) j have pg: "pgid j = pg" by (simp add: has_pgid_def)
  show ?case
  proof (cases prev)
    case None
    then show ?thesis
      by (subst remove_job_loop.simps) (simp add: cur j pg nxt)
  next
    case (Some p)
    with Nil.prems(4) obtain pj where "heap s p = Some pj" by auto
    with Some show ?thesis
      by (subst remove_job_loop.simps) (simp add: cur j pg nxt)
  qed
next
  case (Cons x xs)
  from Cons.prems(1) obtain xj where cur: "cur = Some x" and xj: "heap s x = Some xj"
    and rest: "job_path (heap s) (next_job xj) (xs @ [a])" by (auto split: option.splits)
  from Cons.prems(2) xj have pg: "pgid xj \<noteq> pg" by (simp add: has_pgid_def)
  from Cons.prems(2) have no: "\<forall>b\<in>set xs. \<not> has_pgid s pg b" by simp
  have "\<forall>p. Some x = Some p \<longrightarrow> heap s p \<noteq> None" using xj by simp
  from Cons.IH [OF rest no Cons.prems(3) this]
  have "remove_job_loop s (next_job xj) (Some x) pg 0 =
     Some (1, s\<lparr>heap := (heap s)(last (x # xs) \<mapsto>
                  (the (heap s (last (x # xs))))\<lparr>next_job := None\<rparr>)\<rparr>)"
    by simp
  then show ?case
    by (subst remove_job_loop.simps) (simp add: cur xj pg)
qed

lemma add_job_loop_path:
  assumes "job_path (heap s) cur (xs @ [p])" and "heap s p = Some pj"
  shows "add_job_loop s cur a = Some (s\<lparr>heap := (heap s)(p \<mapsto> pj\<lparr>next_job := Some a\<rparr>)\<rparr>)"
  using assms
proof (induction xs arbitrary: cur)
  case Nil
  then have "cur = Some p" "next_job pj = None" by (auto split: option.splits)
  with Nil.prems(2) show ?case
    by (subst add_job_loop.simps) simp
next
  case (Cons x xs)
  from Cons.prems(1) obtain xj where cur: "cur = Some x" and xj: "heap s x = Some xj"
    and rest: "job_path (heap s) (next_job xj) (xs @ [p])" by (auto split: option.splits)
  from rest obtain y where y: "next_job xj = Some y" by (cases xs) auto
  have "add_job_loop s cur a = add_job_loop s (next_job xj) a"
    by (subst add_job_loop.simps) (simp add: cur xj y)
  with Cons.IH [OF rest Cons.prems(2)] show ?case by simp
qed

lemma update_job_status_no_child:
  "pid \<le> 0 \<Longrightarrow> update_job_status wstatus pid s = Some (0, s)"
  by (simp add: update_job_status_def)

lemma find_job_table:
  "job_table s as \<Longrightarrow> find_job pg s = Some (find (has_pgid s pg) as)"
  by (simp add: find_job_def job_table_def find_job_loop_path)

lemma update_job_status_done:
  assumes "job_table s as" and "0 < pid" and "find (has_pgid s pid) as = Some a"
    and "heap s a = Some j" and "\<not> WIFSTOPPED wstatus"
  shows "update_job_status wstatus pid s =
           Some (1, s\<lparr>heap := (heap s)(a \<mapsto> j\<lparr>status := DONE\<rparr>)\<rparr>)"
  using assms by (simp add: update_job_status_def find_job_table store_job_def)

lemma background_numbers_cong:
  "\<forall>a\<in>set as. h' a = h a \<or>
      (\<exists>j j'. h a = Some j \<and> h' a = Some j' \<and> background j' = background j \<and>
         job_number j' = job_number j) \<Longrightarrow>
   background_numbers h' as = background_numbers h as"
  by (induction as) (auto simp: background_numbers_def)

lemma update_job_status_foreground_stop_last:
  assumes table: "job_table s (as @ [a])" and pid: "0 < pid"
    and others: "\<forall>b\<in>set as. \<not> has_pgid s pid b"
    and j: "heap s a = Some j" and pg: "pgid j = pid"
    and fg: "job_number j = FG_JOB_NUM"
    and stop: "WIFSTOPPED wstatus" "WSTOPSIG wstatus = SIGTSTP \<or> WSTOPSIG wstatus = SIGSTOP"
  shows "update_job_status wstatus pid s =
           Some (1, s\<lparr>heap := (heap s)(a \<mapsto> j\<lparr>status := STOPPED, background := 1,
              job_number := Max (set (0 # background_numbers (heap s) as)) + 1\<rparr>)\<rparr>)"
proof -
  let ?n = "Max (set (0 # background_numbers (heap s) as))"
  let ?j2 = "j\<lparr>status := STOPPED, background := 1\<rparr>"
  let ?s2 = "s\<lparr>heap := (heap s)(a \<mapsto> ?j2)\<rparr>"
  from table have path: "job_path (heap s) (job_list_head s) (as @ [a])"
    by (simp add: job_table_def)
  from path have "distinct (as @ [a])" by (rule job_path_distinct)
  then have notin: "a \<notin> set as" by simp
  from path j have last: "next_job j = None" using job_path_last by fastforce
  have apg: "has_pgid s pid a" by (simp add: has_pgid_def j pg)
  from others apg have "find (has_pgid s pid) (as @ [a]) = Some a"
    by (induction as) auto
  with table have found: "find_job pid s = Some (Some a)" by (simp add: find_job_table)
  have path2: "job_path (heap ?s2) (job_list_head ?s2) (as @ [a])"
    using path j by (simp add: job_path_same_next)
  have pg2: "\<forall>b\<in>set as. \<not> has_pgid ?s2 pid b" "has_pgid ?s2 pid a"
    using others notin pg by (auto simp: has_pgid_def)
  have start: "update_job_status wstatus pid s = do {
      (r, s3) \<leftarrow> remove_job pid 0 ?s2;
      n \<leftarrow> find_most_recent_job_num s3;
      s4 \<leftarrow> store_job a (\<lambda>j. j\<lparr>job_number := n + 1\<rparr>) s3;
      s5 \<leftarrow> add_job a s4;
      Some (1, s5) }"
    using pid found stop j fg by (simp add: update_job_status_def store_job_def)
  show ?thesis
  proof (cases as rule: rev_cases)
    case Nil
    with path have head: "job_list_head s = Some a" by simp
    from Nil remove_job_loop_last [OF path2 pg2, of None]
    have rm: "remove_job pid 0 ?s2 = Some (1, ?s2\<lparr>job_list_head := None\<rparr>)"
      by (simp add: remove_job_def)
    have num: "find_most_recent_job_num (?s2\<lparr>job_list_head := None\<rparr>) = Some 0"
      by (simp add: find_most_recent_job_num_def find_most_recent_job_num_loop.simps)
    have "?n = 0" using Nil by (simp add: background_numbers_def)
    with start rm num head show ?thesis
      by (simp add: store_job_def add_job_def)
  next
    case (snoc xs p)
    with path have pathp: "job_path (heap s) (job_list_head s) (xs @ [p, a])" by simp
    from job_path_before_last [OF pathp] obtain pj where
      pj: "heap s p = Some pj" and pnext: "next_job pj = Some a" by blast
    from snoc notin have pa: "p \<noteq> a" by auto
    let ?s3 = "?s2\<lparr>heap := (heap ?s2)(p \<mapsto> pj\<lparr>next_job := None\<rparr>)\<rparr>"
    from snoc pa pj remove_job_loop_last [OF path2 pg2, of None]
    have rm: "remove_job pid 0 ?s2 = Some (1, ?s3)"
      by (simp add: remove_job_def)
    from pathp j have "job_path (heap ?s2) (job_list_head s) (xs @ [p, a])"
      by (simp add: job_path_same_next)
    moreover from pj pa have "heap ?s2 p = Some pj" by simp
    ultimately have path3: "job_path (heap ?s3) (job_list_head s) (xs @ [p])"
      using job_path_cut_last by fastforce
    then have table3: "job_table ?s3 as" by (simp add: job_table_def snoc)
    have "background_numbers (heap ?s3) as = background_numbers (heap s) as"
      by (rule background_numbers_cong) (use notin pj in auto)
    with find_most_recent_job_num_table [OF table3]
    have num: "find_most_recent_job_num ?s3 = Some ?n" by simp
    let ?j4 = "j\<lparr>status := STOPPED, background := 1, job_number := ?n + 1\<rparr>"
    let ?s4 = "?s3\<lparr>heap := (heap ?s3)(a \<mapsto> ?j4)\<rparr>"
    have st: "store_job a (\<lambda>j. j\<lparr>job_number := ?n + 1\<rparr>) ?s3 = Some ?s4"
      using pa by (simp add: store_job_def)
    from notin snoc have na: "a \<notin> set (xs @ [p])" by simp
    have path4: "job_path (heap ?s4) (job_list_head ?s4) (xs @ [p])"
      using path3 job_path_update_other [OF na, of "heap ?s3" "Some ?j4" "job_list_head s"]
      by simp
    have p4: "heap ?s4 p = Some (pj\<lparr>next_job := None\<rparr>)" using pa by simp
    from pathp obtain h where h: "job_list_head s = Some h" by (cases xs) auto
    with add_job_loop_path [OF path4 p4, of a]
    have add: "add_job a ?s4 =
        Some (?s4\<lparr>heap := (heap ?s4)(p \<mapsto> pj\<lparr>next_job := None\<rparr>\<lparr>next_job := Some a\<rparr>)\<rparr>)"
      by (simp add: add_job_def)
    have "pj\<lparr>next_job := None\<rparr>\<lparr>next_job := Some a\<rparr> = pj" using pnext by simp
    then have "(heap ?s4)(p \<mapsto> pj\<lparr>next_job := None\<rparr>\<lparr>next_job := Some a\<rparr>) =
        (heap s)(a \<mapsto> ?j4)"
      using pj pa by (auto simp: fun_eq_iff)
    with start rm num st add show ?thesis by simp
  qed
qed

lemma update_job_status_foreground_stop_last_table:
  assumes "job_table s (as @ [a])" and "heap s a = Some j"
  shows "job_table (s\<lparr>heap := (heap s)(a \<mapsto> j\<lparr>status := STOPPED, background := 1,
           job_number := n\<rparr>)\<rparr>) (as @ [a])"
  using assms by (simp add: job_table_def job_path_same_next)

subsection \<open>A stopped foreground job that is not the last of the table\<close>

lemma find_job_loop_returns:
  assumes "find_job_loop h p pg = Some r"
  shows "case r of None \<Rightarrow> \<exists>as. job_path h p as
         | Some a \<Rightarrow> \<exists>j. h a = Some j \<and> pgid j = pg"
proof (rule find_job_loop.raw_induct [OF _ assms], goal_cases)
  case (1 loop h cur pg r)
  note IH = 1(1) and body = 1(2)
  show ?case
  proof (cases cur)
    case None
    with body have "r = None" by simp
    moreover from None have "\<exists>as. job_path h cur as"
      by (intro exI [of _ "[]"]) simp
    ultimately show ?thesis by simp
  next
    case (Some c)
    with body obtain cj where cj: "h c = Some cj" by (auto split: option.splits)
    show ?thesis
    proof (cases "pgid cj = pg")
      case True
      with body Some cj show ?thesis by auto
    next
      case False
      with body Some cj have run: "loop h (next_job cj) pg = Some r" by simp
      show ?thesis
      proof (cases r)
        case None
        with IH [OF run] obtain as where "job_path h (next_job cj) as" by auto
        with Some cj have "job_path h cur (c # as)" by simp
        then have "\<exists>as. job_path h cur as" ..
        with None show ?thesis by simp
      next
        case (Some a)
        with IH [OF run] show ?thesis by simp
      qed
    qed
  qed
qed

lemma relinked_table_no_list: "\<not> job_table relinked_table as"
proof
  assume "job_table relinked_table as"
  then have p: "job_path (heap relinked_table) (Some 2) as"
    by (simp add: job_table_def relinked_table_def)
  then obtain as2 where as: "as = 2 # 1 # as2"
    and p2: "job_path (heap relinked_table) (Some 2) as2"
    by (cases as; cases "tl as") (auto simp: relinked_table_def zero_job_def)
  from p p2 have "as = as2" by (rule job_path_unique)
  with as show False by simp
qed

text \<open>
  C2. The job with pgid 10 carries the foreground job number and is followed in the table
  by a background job. When \<^verbatim>\<open>waitpid\<close> reports it stopped by \<^verbatim>\<open>SIGTSTP\<close>, it is
  unlinked, numbered 2 and stored in the \<^verbatim>\<open>next\<close> field of the last job, but its own
  \<^verbatim>\<open>next\<close> field still points to that job: the table is no list any more, it has no
  last job, and looking up a pid that is in no job never returns.
\<close>

theorem update_job_status_foreground_stop_not_last:
  "job_table example_table [1, 2]
   \<and> WIFSTOPPED 0x147f \<and> WSTOPSIG 0x147f = SIGTSTP
   \<and> update_job_status 0x147f 10 example_table = Some (1, relinked_table)
   \<and> (\<forall>as. \<not> job_table relinked_table as)
   \<and> find_job 12 relinked_table = None"
proof -
  have a: "job_table example_table [1, 2]"
    by (simp add: job_table_def example_table_def zero_job_def)
  have b: "WIFSTOPPED 0x147f" "WSTOPSIG 0x147f = SIGTSTP"
    by (simp_all add: WIFSTOPPED_def WSTOPSIG_def SIGTSTP_def)
  have c: "update_job_status 0x147f 10 example_table = Some (1, relinked_table)"
    by (simp add: update_job_status_def b find_job_def find_job_loop.simps store_job_def
        remove_job_def remove_job_loop.simps find_most_recent_job_num_def
        find_most_recent_job_num_loop.simps add_job_def add_job_loop.simps FG_JOB_NUM_def
        example_table_def relinked_table_def zero_job_def fun_upd_twist)
  have d: "find_job 12 relinked_table = None"
  proof (cases "find_job 12 relinked_table")
    case None
    then show ?thesis .
  next
    case (Some r)
    from find_job_loop_returns [OF Some [unfolded find_job_def]] relinked_table_no_list
    show ?thesis
      by (cases r)
        (auto simp: job_table_def relinked_table_def zero_job_def split: if_splits)
  qed
  from a b c d relinked_table_no_list show ?thesis by blast
qed

subsection \<open>The built-in fg\<close>

lemma store_job_frame:
  "store_job a f s = Some s' \<Longrightarrow> effects s' = effects s \<and> shell_pid s' = shell_pid s"
  by (auto simp: store_job_def split: option.splits)

lemma remove_job_loop_frame:
  assumes "remove_job_loop s cur prev pg fg_free = Some y"
  shows "effects (snd y) = effects s \<and> shell_pid (snd y) = shell_pid s"
  by (rule remove_job_loop.raw_induct [OF _ assms])
     (auto simp: free_job_def Let_def split: option.splits if_splits)

lemma add_job_loop_frame:
  assumes "add_job_loop s cur job = Some s'"
  shows "effects s' = effects s \<and> shell_pid s' = shell_pid s"
  by (rule add_job_loop.raw_induct [OF _ assms])
     (auto split: option.splits if_splits)

lemma remove_job_frame:
  "remove_job pg fg_free s = Some (r, s') \<Longrightarrow>
     effects s' = effects s \<and> shell_pid s' = shell_pid s"
  using remove_job_loop_frame [of s "job_list_head s" None pg fg_free "(r, s')"]
  by (simp add: remove_job_def)

lemma add_job_frame:
  "add_job job s = Some s' \<Longrightarrow> effects s' = effects s \<and> shell_pid s' = shell_pid s"
  using add_job_loop_frame [of s "job_list_head s" job s']
  by (auto simp: add_job_def split: if_splits)

lemma update_job_status_frame:
  assumes "update_job_status wstatus pid s = Some (r, s')"
  shows "effects s' = effects s \<and> shell_pid s' = shell_pid s"
proof (cases "pid \<le> 0")
  case True
  with assms show ?thesis by (simp add: update_job_status_def)
next
  case False
  with assms obtain found where found: "find_job pid s = Some found"
    by (auto simp: update_job_status_def bind_eq_Some_conv)
  show ?thesis
  proof (cases found)
    case None
    with assms False found show ?thesis by (simp add: update_job_status_def)
  next
    case (Some job)
    show ?thesis
    proof (cases "WIFSTOPPED wstatus")
      case stopped: False
      with assms False found Some show ?thesis
        by (auto simp: update_job_status_def bind_eq_Some_conv dest: store_job_frame)
    next
      case stopped: True
      with assms False found Some obtain s1 where
        s1: "store_job job (\<lambda>j. j\<lparr>status := STOPPED\<rparr>) s = Some s1"
        by (auto simp: update_job_status_def bind_eq_Some_conv)
      note f1 = store_job_frame [OF s1]
      show ?thesis
      proof (cases "WSTOPSIG wstatus = SIGTSTP \<or> WSTOPSIG wstatus = SIGSTOP")
        case False
        with assms \<open>\<not> pid \<le> 0\<close> found Some stopped s1 f1 show ?thesis
          by (auto simp: update_job_status_def)
      next
        case True
        with assms \<open>\<not> pid \<le> 0\<close> found Some stopped s1 obtain s2 j where
          s2: "store_job job (\<lambda>j. j\<lparr>background := 1\<rparr>) s1 = Some s2"
          and j: "heap s2 job = Some j"
          by (auto simp: update_job_status_def bind_eq_Some_conv)
        note f2 = store_job_frame [OF s2]
        show ?thesis
        proof (cases "job_number j = FG_JOB_NUM")
          case False
          with assms \<open>\<not> pid \<le> 0\<close> found Some stopped s1 True s2 j f1 f2 show ?thesis
            by (auto simp: update_job_status_def)
        next
          case fg: True
          with assms \<open>\<not> pid \<le> 0\<close> found Some stopped s1 True s2 j
          obtain r3 s3 n s4 where s3: "remove_job pid 0 s2 = Some (r3, s3)"
            and s4: "store_job job (\<lambda>j. j\<lparr>job_number := n + 1\<rparr>) s3 = Some s4"
            and s5: "add_job job s4 = Some s'"
            by (auto simp: update_job_status_def bind_eq_Some_conv)
          from remove_job_frame [OF s3] store_job_frame [OF s4] add_job_frame [OF s5] f1 f2
          show ?thesis by simp
        qed
      qed
    qed
  qed
qed

lemma update_job_table_statuses_frame:
  "update_job_table_statuses ws s = Some (ws', s') \<Longrightarrow>
     effects s' = effects s \<and> shell_pid s' = shell_pid s"
proof (induction ws arbitrary: s)
  case Nil
  then show ?case by simp
next
  case (Cons w ws)
  obtain wstatus pid where w: "w = (wstatus, pid)" by (cases w)
  from Cons.prems w obtain r s1 where s1: "update_job_status wstatus pid s = Some (r, s1)"
    by (cases "update_job_status wstatus pid s") auto
  note f1 = update_job_status_frame [OF s1]
  show ?case
  proof (cases "r = 0")
    case True
    with Cons.prems w s1 have "s' = s1" by simp
    with f1 show ?thesis by simp
  next
    case False
    with Cons.prems w s1 have "update_job_table_statuses ws s1 = Some (ws', s')" by simp
    from Cons.IH [OF this] f1 show ?thesis by simp
  qed
qed

lemma foreground_wait_frame:
  "foreground_wait job ws s = Some (ws', s') \<Longrightarrow>
     effects s' = effects s \<and> shell_pid s' = shell_pid s"
proof (induction ws arbitrary: s)
  case Nil
  then show ?case by simp
next
  case (Cons w ws)
  obtain wstatus pid where w: "w = (wstatus, pid)" by (cases w)
  from Cons.prems w obtain r s1 where s1: "update_job_status wstatus pid s = Some (r, s1)"
    by (cases "update_job_status wstatus pid s") auto
  note f1 = update_job_status_frame [OF s1]
  show ?case
  proof (cases "r \<noteq> 0 \<and> (\<exists>j. heap s1 job = Some j \<and> status j = RUNNING)")
    case True
    with Cons.prems w s1 have "foreground_wait job ws s1 = Some (ws', s')" by auto
    from Cons.IH [OF this] f1 show ?thesis by simp
  next
    case False
    with Cons.prems w s1 have "s' = s1"
      by (cases "heap s1 job") (auto split: if_splits)
    with f1 show ?thesis by simp
  qed
qed

lemma find_next_job_to_fg_table:
  assumes "job_table s as"
  shows "find_next_job_to_fg s = Some (last_not_done s as)"
proof (cases "job_list_head s")
  case None
  with assms have "as = []" by (cases as) (simp_all add: job_table_def)
  with None show ?thesis by (simp add: find_next_job_to_fg_def last_not_done_def)
next
  case (Some a)
  with find_next_job_to_fg_loop_path [OF assms [unfolded job_table_def], of None]
  show ?thesis by (simp add: find_next_job_to_fg_def last_not_done_def)
qed

lemma continue_background_job_effects:
  assumes "continue_background_job job 1 kill_result ws s = Some (ws', s')"
    and "heap s job = Some j"
  shows "effects s' = effects s @ [Kill (- pgid j) SIGCONT] @
           (if kill_result < 0 then []
            else [Tcsetpgrp STDIN_FILENO (pgid j), Tcsetpgrp STDIN_FILENO (shell_pid s)])"
proof (cases "kill_result < 0")
  case True
  with assms show ?thesis
    by (auto simp: continue_background_job_def bind_eq_Some_conv dest: store_job_frame)
next
  case False
  let ?s1 = "s\<lparr>effects := effects s @ [Kill (- pgid j) SIGCONT]\<rparr>"
  from assms False have run: "execute_in_foreground job ws ?s1 = Some (ws', s')"
    by (simp add: continue_background_job_def)
  let ?s2 = "?s1\<lparr>effects := effects ?s1 @ [Tcsetpgrp STDIN_FILENO (pgid j)]\<rparr>"
  from run assms(2) obtain s3 where wait: "foreground_wait job ws ?s2 = Some (ws', s3)"
    and s': "s' = s3\<lparr>effects := effects s3 @ [Tcsetpgrp STDIN_FILENO (shell_pid s3)]\<rparr>"
    by (auto simp: execute_in_foreground_def bind_eq_Some_conv)
  from foreground_wait_frame [OF wait] s' False show ?thesis by simp
qed

text \<open>
  C7. \<^verbatim>\<open>execute_fg\<close> drains first. On the table the drain leaves, a list,
  \<^verbatim>\<open>find_next_job_to_fg\<close> returns the last job whose status is not \<open>DONE\<close>. If there
  is none, \<^verbatim>\<open>execute_fg\<close> ends in the state the drain left: no job is changed, nothing is
  printed, no signal is sent. If there is one, that job is the one resumed: its command is
  printed and \<^verbatim>\<open>SIGCONT\<close> goes to its process group, which is then given the terminal.
\<close>

theorem execute_fg_last_not_done:
  assumes "update_job_table_statuses ws s = Some (ws1, s1)" and "job_table s1 as"
  shows "find_next_job_to_fg s1 = Some (last_not_done s1 as)
       \<and> (last_not_done s1 as = None \<longrightarrow> execute_fg ws kill_result s = Some (ws1, s1))
       \<and> (\<forall>a j ws' s'. last_not_done s1 as = Some a \<and> heap s1 a = Some j \<and>
              execute_fg ws kill_result s = Some (ws', s') \<longrightarrow>
            effects s' = effects s1 @
              [Stdout ((if suffix '' &'' (command j)
                        then take (length (command j) - 2) (command j) else command j)
                       @ [CHR 0x0A]),
               Kill (- pgid j) SIGCONT] @
              (if kill_result < 0 then []
               else [Tcsetpgrp STDIN_FILENO (pgid j), Tcsetpgrp STDIN_FILENO (shell_pid s1)]))"
proof (intro conjI allI impI)
  show sel: "find_next_job_to_fg s1 = Some (last_not_done s1 as)"
    using assms(2) by (rule find_next_job_to_fg_table)
  show "execute_fg ws kill_result s = Some (ws1, s1)" if "last_not_done s1 as = None"
    using that assms(1) sel by (simp add: execute_fg_def)
next
  fix a j ws' s'
  assume h: "last_not_done s1 as = Some a \<and> heap s1 a = Some j \<and>
              execute_fg ws kill_result s = Some (ws', s')"
  let ?cmd = "if suffix '' &'' (command j)
              then take (length (command j) - 2) (command j) else command j"
  have sel: "find_next_job_to_fg s1 = Some (Some a)"
    using find_next_job_to_fg_table [OF assms(2)] h by simp
  from h assms(1) sel obtain j' where
    j': "update_job_command_str [] j 0 = Some j'"
    by (auto simp: execute_fg_def bind_eq_Some_conv)
  from update_job_command_str_fg [OF j'] have j'_eq: "j' = j\<lparr>command := ?cmd\<rparr>" .
  let ?s2 = "s1\<lparr>heap := (heap s1)(a \<mapsto> j')\<rparr>"
  let ?s3 = "?s2\<lparr>heap := (heap ?s2)(a \<mapsto> j'\<lparr>status := RUNNING\<rparr>)\<rparr>"
  let ?s4 = "?s3\<lparr>effects := effects ?s3 @ [Stdout (command j' @ [CHR 0x0A])]\<rparr>"
  let ?s5 = "?s4\<lparr>heap := (heap ?s4)(a \<mapsto> j'\<lparr>status := RUNNING, background := 0\<rparr>)\<rparr>"
  from h assms(1) sel j'
  have run: "continue_background_job a 1 kill_result ws1 ?s5 = Some (ws', s')"
    by (auto simp: execute_fg_def bind_eq_Some_conv store_job_def print_job_def Let_def)
  have "heap ?s5 a = Some (j'\<lparr>status := RUNNING, background := 0\<rparr>)" by simp
  from continue_background_job_effects [OF run this]
  show "effects s' = effects s1 @
              [Stdout (?cmd @ [CHR 0x0A]), Kill (- pgid j) SIGCONT] @
              (if kill_result < 0 then []
               else [Tcsetpgrp STDIN_FILENO (pgid j), Tcsetpgrp STDIN_FILENO (shell_pid s1)])"
    by (simp add: j'_eq)
qed

theorem execute_fg_last_not_done_witness:
  "update_job_table_statuses [(0, 0), (0, 11)] example_table = Some ([(0, 11)], example_table)
   \<and> job_table example_table [1, 2]
   \<and> last_not_done example_table [1, 2] = Some 2
   \<and> execute_fg [(0, 0), (0, 11)] 0 example_table =
       Some ([], example_table
         \<lparr>heap := [1 \<mapsto> zero_job\<lparr>pgid := 10, command := ''cat'', job_number := - 1,
                        status := STOPPED, next_job := Some 2\<rparr>,
                   2 \<mapsto> zero_job\<lparr>pgid := 11, command := ''sleep 100'', job_number := 1,
                        background := 0, status := DONE\<rparr>],
           effects := [Stdout (''sleep 100'' @ [CHR 0x0A]), Kill (- 11) SIGCONT,
                       Tcsetpgrp 0 11, Tcsetpgrp 0 5]\<rparr>)
   \<and> job_table empty_table []
   \<and> last_not_done empty_table [] = None
   \<and> execute_fg [(0, 0)] 0 empty_table = Some ([], empty_table)"
proof -
  have a: "update_job_table_statuses [(0, 0), (0, 11)] example_table =
      Some ([(0, 11)], example_table)"
    by (simp add: update_job_status_def)
  have b: "job_table example_table [1, 2]"
    by (simp add: job_table_def example_table_def zero_job_def)
  have c: "last_not_done example_table [1, 2] = Some 2"
    by (simp add: last_not_done_def not_done_def example_table_def zero_job_def)
  have d: "execute_fg [(0, 0), (0, 11)] 0 example_table =
       Some ([], example_table
         \<lparr>heap := [1 \<mapsto> zero_job\<lparr>pgid := 10, command := ''cat'', job_number := - 1,
                        status := STOPPED, next_job := Some 2\<rparr>,
                   2 \<mapsto> zero_job\<lparr>pgid := 11, command := ''sleep 100'', job_number := 1,
                        background := 0, status := DONE\<rparr>],
           effects := [Stdout (''sleep 100'' @ [CHR 0x0A]), Kill (- 11) SIGCONT,
                       Tcsetpgrp 0 11, Tcsetpgrp 0 5]\<rparr>)"
    by (simp add: execute_fg_def update_job_status_def find_next_job_to_fg_def
        find_next_job_to_fg_loop.simps update_job_command_str_def has_bg_suffix_def
        find_most_recent_job_num_def find_most_recent_job_num_loop.simps store_job_def
        print_job_def continue_background_job_def execute_in_foreground_def
        find_job_def find_job_loop.simps WIFSTOPPED_def STDIN_FILENO_def
        example_table_def zero_job_def fun_upd_twist)
  have e: "update_job_table_statuses [(0, 0)] empty_table = Some ([], empty_table)"
    by (simp add: update_job_status_def)
  have f: "job_table empty_table []"
    by (simp add: job_table_def empty_table_def)
  have g: "last_not_done empty_table [] = None"
    by (simp add: last_not_done_def)
  from execute_fg_last_not_done [OF a b, of 0] execute_fg_last_not_done [OF e f, of 0]
    a b c d f g
  show ?thesis by simp
qed

end
